theory Spec2Isabelle
  imports Main "HOL-Library.Word"
begin

section \<open>The bank ledger of \<open>Multi_Threading_Bank_System/main.cpp\<close>\<close>

subsection \<open>Machine integers\<close>

text \<open>
  Every number of the program (balances, amounts, account numbers, transaction ids) is a
  C++ \<open>int\<close>: 32 bits, two's complement. The model keeps them as 32-bit words, read as
  signed values by \<open>sint\<close> and compared by the signed orders \<open>\<le>s\<close> and \<open><s\<close>. The
  program checks no addition for overflow. C++ leaves the result of a signed overflow
  open; the model gives it the result of the machine addition, which wraps around, as
  \<open>+\<close> and \<open>-\<close> on words do.
\<close>

type_synonym cint = "32 word"

definition INT_MAX :: int where
  "INT_MAX = 2147483647"

subsection \<open>Data model\<close>

text \<open>
  \<open>class Transaction\<close> (lines 15-40). The constructor reads the clock; the model takes
  the text returned by \<open>ctime\<close> as an argument and drops its last character, as
  \<open>pop_back\<close> does.
\<close>

record Transaction =
  transactionId :: cint
  type :: string
  amount :: cint
  fromAccount :: cint
  toAccount :: cint
  timestamp :: string

definition mkTransaction :: "string \<Rightarrow> cint \<Rightarrow> string \<Rightarrow> cint \<Rightarrow> cint \<Rightarrow> cint \<Rightarrow> Transaction" where
  "mkTransaction now tid typ amt from to =
     \<lparr>transactionId = tid, type = typ, amount = amt, fromAccount = from, toAccount = to,
      timestamp = butlast now\<rparr>"

text \<open>
  \<open>class Account\<close> (lines 43-97). The mutex \<open>accMutex\<close> is not a field of the record:
  every \<open>lock_guard\<close> gives it back when its scope ends, so between two calls of one
  thread no mutex is held, and \<open>deposit\<close> and \<open>withdraw\<close> take one mutex only. The
  place where a second mutex is taken while the first is held is \<open>transfer\<close>.
\<close>

record Account =
  accountNumber :: cint
  accountName :: string
  balance :: cint
  accountType :: string

text \<open>\<open>Account::deposit\<close> (lines 74-79).\<close>

definition deposit :: "Account \<Rightarrow> cint \<Rightarrow> bool \<times> Account" where
  "deposit acc amt =
     (if amt \<le>s 0 then (False, acc)
      else (True, acc\<lparr>balance := balance acc + amt\<rparr>))"

text \<open>\<open>Account::withdraw\<close> (lines 81-86).\<close>

definition withdraw :: "Account \<Rightarrow> cint \<Rightarrow> bool \<times> Account" where
  "withdraw acc amt =
     (if amt \<le>s 0 \<or> balance acc <s amt then (False, acc)
      else (True, acc\<lparr>balance := balance acc - amt\<rparr>))"

text \<open>
  \<open>Account::transfer\<close> (lines 88-96). The two accounts are objects owned by the
  bank's vector, so the model works on the vector and on two positions in it: \<open>i\<close> is
  \<open>this\<close>, \<open>j\<close> is \<open>toAccount\<close>; both come from \<open>findAccount\<close> and are in range.
  The body locks \<open>this->accMutex\<close> (line 89), checks the amount (line 90), debits (line 92)
  and, still holding the first mutex, locks \<open>toAccount.accMutex\<close> (line 93). When both
  positions are the same object this second lock is on a \<open>std::mutex\<close> the thread already
  owns, which C++ does not allow and which, with a mutex that is not recursive, waits for
  itself for ever: the call does not return, which is the result \<open>None\<close>. The step-by-step
  model further down has the mutexes as state; \<open>transfer_run_thread\<close> shows that a thread
  running alone computes this function.
\<close>

definition transfer :: "Account list \<Rightarrow> nat \<Rightarrow> nat \<Rightarrow> cint \<Rightarrow> (bool \<times> Account list) option" where
  "transfer as i j amt =
     (if amt \<le>s 0 \<or> balance (as ! i) <s amt then Some (False, as)
      else
        let as1 = as[i := (as ! i)\<lparr>balance := balance (as ! i) - amt\<rparr>]
        in if j = i then None
           else Some (True, as1[j := (as1 ! j)\<lparr>balance := balance (as1 ! j) + amt\<rparr>]))"

text \<open>
  \<open>class Bank\<close> (lines 100-143). \<open>accounts\<close> is the vector of owned accounts, in creation
  order; a pointer to an account is its position in this list.
\<close>

record Bank =
  accounts :: "Account list"
  transactions :: "Transaction list"
  nextAccountNumber :: cint

text \<open>The constructor (lines 104-109): empty vectors, counter at 1000.\<close>

definition Bank_init :: Bank where
  "Bank_init = \<lparr>accounts = [], transactions = [], nextAccountNumber = 1000\<rparr>"

text \<open>\<open>Bank::createAccount\<close> (lines 111-115): returns the counter's old value.\<close>

definition createAccount :: "Bank \<Rightarrow> string \<Rightarrow> string \<Rightarrow> cint \<Rightarrow> cint \<times> Bank" where
  "createAccount b name typ initialBalance =
     (nextAccountNumber b,
      b\<lparr>accounts := accounts b @
           [\<lparr>accountNumber = nextAccountNumber b, accountName = name,
             balance = initialBalance, accountType = typ\<rparr>],
        nextAccountNumber := nextAccountNumber b + 1\<rparr>)"

text \<open>
  \<open>Bank::findAccount\<close> (lines 117-124): the first account of the vector with the number,
  or \<open>nullptr\<close> (\<open>None\<close>). \<open>k\<close> is the position of the head of the remaining list.
\<close>

fun findAccount_loop :: "Account list \<Rightarrow> cint \<Rightarrow> nat \<Rightarrow> nat option" where
  "findAccount_loop [] n k = None"
| "findAccount_loop (acc # rest) n k =
     (if accountNumber acc = n then Some k else findAccount_loop rest n (Suc k))"

definition findAccount :: "Bank \<Rightarrow> cint \<Rightarrow> nat option" where
  "findAccount b n = findAccount_loop (accounts b) n 0"

text \<open>
  \<open>Bank::recordTransaction\<close> (lines 132-135). The id is \<open>transactions.size() + 1\<close>,
  a \<open>size_t\<close> narrowed to \<open>int\<close>.
\<close>

definition recordTransaction :: "Bank \<Rightarrow> string \<Rightarrow> string \<Rightarrow> cint \<Rightarrow> cint \<Rightarrow> cint \<Rightarrow> Bank" where
  "recordTransaction b now typ amt from to =
     b\<lparr>transactions := transactions b @
          [mkTransaction now (of_nat (length (transactions b) + 1)) typ amt from to]\<rparr>"

subsection \<open>The menu\<close>

text \<open>
  \<open>userMenu\<close> (lines 146-218). One pass of the loop reads a choice and its arguments and
  runs one \<open>case\<close> of the switch. A \<open>command\<close> is a choice with its parsed arguments;
  a \<open>message\<close> is a line the case prints (prompts left out).
\<close>

datatype command =
    Create string string cint
  | Deposit cint cint
  | Withdraw cint cint
  | Transfer cint cint cint
  | View cint
  | History
  | Other

datatype message =
    AccountCreated cint
  | DepositedSuccessfully
  | WithdrawalSuccessful
  | TransferSuccessful
  | InvalidAccount
  | InvalidAccounts
  | AccountNotFound
  | InvalidChoice
  | TransactionHistory
  | ShowAccount Account
  | ShowTransaction Transaction

text \<open>
  The body of the switch (lines 156-216). \<open>now\<close> is the clock text a transaction
  recorded in this pass gets. In case 4 the \<open>else\<close> belongs to the lookup of the source
  account only: a missing target account prints nothing.
\<close>

fun userMenu_case :: "string \<Rightarrow> Bank \<Rightarrow> command \<Rightarrow> (message list \<times> Bank) option" where
  "userMenu_case now b (Create name typ amt) =
     (case createAccount b name typ amt of
        (accNum, b') \<Rightarrow> Some ([AccountCreated accNum], b'))"
| "userMenu_case now b (Deposit accNum amt) =
     (case findAccount b accNum of
        Some i \<Rightarrow>
          (case deposit (accounts b ! i) amt of
             (True, acc') \<Rightarrow>
               Some ([DepositedSuccessfully],
                     recordTransaction (b\<lparr>accounts := (accounts b)[i := acc']\<rparr>)
                       now ''Deposit'' amt accNum (- 1))
           | (False, acc') \<Rightarrow> Some ([], b\<lparr>accounts := (accounts b)[i := acc']\<rparr>))
      | None \<Rightarrow> Some ([InvalidAccount], b))"
| "userMenu_case now b (Withdraw accNum amt) =
     (case findAccount b accNum of
        Some i \<Rightarrow>
          (case withdraw (accounts b ! i) amt of
             (True, acc') \<Rightarrow>
               Some ([WithdrawalSuccessful],
                     recordTransaction (b\<lparr>accounts := (accounts b)[i := acc']\<rparr>)
                       now ''Withdraw'' amt accNum (- 1))
           | (False, acc') \<Rightarrow> Some ([], b\<lparr>accounts := (accounts b)[i := acc']\<rparr>))
      | None \<Rightarrow> Some ([InvalidAccount], b))"
| "userMenu_case now b (Transfer accNum toAcc amt) =
     (case findAccount b accNum of
        Some i \<Rightarrow>
          (case findAccount b toAcc of
             Some j \<Rightarrow>
               (case transfer (accounts b) i j amt of
                  None \<Rightarrow> None
                | Some (True, as') \<Rightarrow>
                    Some ([TransferSuccessful],
                          recordTransaction (b\<lparr>accounts := as'\<rparr>) now ''Transfer'' amt accNum toAcc)
                | Some (False, as') \<Rightarrow> Some ([], b\<lparr>accounts := as'\<rparr>))
           | None \<Rightarrow> Some ([], b))
      | None \<Rightarrow> Some ([InvalidAccounts], b))"
| "userMenu_case now b (View accNum) =
     (if accNum = 0 then Some (map ShowAccount (accounts b), b)
      else case findAccount b accNum of
             Some i \<Rightarrow> Some ([ShowAccount (accounts b ! i)], b)
           | None \<Rightarrow> Some ([AccountNotFound], b))"
| "userMenu_case now b History =
     Some (TransactionHistory # map ShowTransaction (transactions b), b)"
| "userMenu_case now b Other = Some ([InvalidChoice], b)"

text \<open>
  The loop, on the passes made before choice 7 ends it: each pass is a clock text and a
  command. The result is everything printed and the bank as it then stands, or \<open>None\<close>
  when a pass never returns.
\<close>

fun userMenu :: "Bank \<Rightarrow> (string \<times> command) list \<Rightarrow> (message list \<times> Bank) option" where
  "userMenu b [] = Some ([], b)"
| "userMenu b ((now, c) # rest) =
     (case userMenu_case now b c of
        None \<Rightarrow> None
      | Some (out, b') \<Rightarrow>
          (case userMenu b' rest of
             None \<Rightarrow> None
           | Some (out', b'') \<Rightarrow> Some (out @ out', b'')))"

subsection \<open>Observations used by the properties\<close>

text \<open>The account numbers announced by case 1, in the order printed.\<close>

fun created :: "message list \<Rightarrow> cint list" where
  "created [] = []"
| "created (AccountCreated n # ms) = n # created ms"
| "created (m # ms) = created ms"

text \<open>No balance of the registry is negative.\<close>

definition nonneg :: "Bank \<Rightarrow> bool" where
  "nonneg b = list_all (\<lambda>acc. 0 \<le>s balance acc) (accounts b)"

text \<open>The sum of all balances, as integers.\<close>

definition total :: "Account list \<Rightarrow> int" where
  "total as = sum_list (map (\<lambda>acc. sint (balance acc)) as)"

text \<open>
  A pass is admissible when it opens no account in debt and adds to no balance beyond
  \<open>INT_MAX\<close>: the initial balance of case 1 is not negative, and where case 2 or case 4
  reaches its addition (lines 77 and 94) the sum is at most \<open>INT_MAX\<close>.
\<close>

fun admissible :: "Bank \<Rightarrow> command \<Rightarrow> bool" where
  "admissible b (Create name typ amt) = (0 \<le>s amt)"
| "admissible b (Deposit accNum amt) =
     (case findAccount b accNum of
        Some i \<Rightarrow> amt \<le>s 0 \<or> sint (balance (accounts b ! i)) + sint amt \<le> INT_MAX
      | None \<Rightarrow> True)"
| "admissible b (Transfer accNum toAcc amt) =
     (case findAccount b accNum of
        Some i \<Rightarrow>
          (case findAccount b toAcc of
             Some j \<Rightarrow>
               amt \<le>s 0 \<or> balance (accounts b ! i) <s amt \<or> j = i \<or>
               sint (balance (accounts b ! j)) + sint amt \<le> INT_MAX
           | None \<Rightarrow> True)
      | None \<Rightarrow> True)"
| "admissible b c = True"

text \<open>Every pass of a run is admissible in the state it starts from.\<close>

fun admissible_run :: "Bank \<Rightarrow> (string \<times> command) list \<Rightarrow> bool" where
  "admissible_run b [] = True"
| "admissible_run b ((now, c) # rest) =
     (admissible b c \<and>
      (case userMenu_case now b c of
         None \<Rightarrow> True
       | Some (out, b') \<Rightarrow> admissible_run b' rest))"

text \<open>A run that only opens accounts.\<close>

fun creates_only :: "(string \<times> command) list \<Rightarrow> bool" where
  "creates_only [] = True"
| "creates_only ((now, Create name typ amt) # rest) = creates_only rest"
| "creates_only ((now, c) # rest) = False"

subsection \<open>Threads and mutexes\<close>

text \<open>
  \<open>Account::transfer\<close> step by step, for threads that run it side by side. A thread is at
  one of the program points of lines 89-95; \<open>mutex\<close> gives for every account of the
  vector the thread that holds its \<open>accMutex\<close>, if any (one entry for each account;
  the accounts of a thread are positions of the vector, a thread is its position in
  \<open>threads\<close>). Locking a held mutex waits. The two guards are released when the function
  returns, \<open>targetGuard\<close> first.
\<close>

datatype pc = Lock_this | Check | Debit | Lock_target | Credit | Return bool

record thread =
  at :: pc
  this_acc :: nat
  to_acc :: nat
  th_amount :: cint

record config =
  accs :: "Account list"
  mutex :: "nat option list"
  threads :: "thread list"

datatype progress = Next config | Waits | Ended

definition goto :: "config \<Rightarrow> nat \<Rightarrow> pc \<Rightarrow> config" where
  "goto c t p = c\<lparr>threads := (threads c)[t := (threads c ! t)\<lparr>at := p\<rparr>]\<rparr>"

definition step :: "nat \<Rightarrow> config \<Rightarrow> progress" where
  "step t c =
     (let th = threads c ! t; i = this_acc th; j = to_acc th in
      case at th of
        Lock_this \<Rightarrow>
          (case mutex c ! i of
             None \<Rightarrow> Next (goto (c\<lparr>mutex := (mutex c)[i := Some t]\<rparr>) t Check)
           | Some u \<Rightarrow> Waits)
      | Check \<Rightarrow>
          (if th_amount th \<le>s 0 \<or> balance (accs c ! i) <s th_amount th
           then Next (goto (c\<lparr>mutex := (mutex c)[i := None]\<rparr>) t (Return False))
           else Next (goto c t Debit))
      | Debit \<Rightarrow>
          Next (goto (c\<lparr>accs := (accs c)[i := (accs c ! i)\<lparr>balance := balance (accs c ! i) - th_amount th\<rparr>]\<rparr>)
                  t Lock_target)
      | Lock_target \<Rightarrow>
          (case mutex c ! j of
             None \<Rightarrow> Next (goto (c\<lparr>mutex := (mutex c)[j := Some t]\<rparr>) t Credit)
           | Some u \<Rightarrow> Waits)
      | Credit \<Rightarrow>
          Next (goto (c\<lparr>accs := (accs c)[j := (accs c ! j)\<lparr>balance := balance (accs c ! j) + th_amount th\<rparr>],
                         mutex := (mutex c)[j := None, i := None]\<rparr>)
                  t (Return True))
      | Return r \<Rightarrow> Ended)"

text \<open>
  One thread run on its own for up to \<open>n\<close> further steps. With no other thread to
  release a mutex, a thread that waits is stuck for good.
\<close>

datatype run = Finished config | Stuck config | Unfinished config

fun run_thread :: "nat \<Rightarrow> nat \<Rightarrow> config \<Rightarrow> run" where
  "run_thread 0 t c =
     (case step t c of Next c' \<Rightarrow> Unfinished c | Waits \<Rightarrow> Stuck c | Ended \<Rightarrow> Finished c)"
| "run_thread (Suc n) t c =
     (case step t c of Next c' \<Rightarrow> run_thread n t c' | Waits \<Rightarrow> Stuck c | Ended \<Rightarrow> Finished c)"

text \<open>The threads run in the order of a schedule; a thread that cannot move ends the run.\<close>

fun run_schedule :: "config \<Rightarrow> nat list \<Rightarrow> config option" where
  "run_schedule c [] = Some c"
| "run_schedule c (t # ts) =
     (if t < length (threads c)
      then (case step t c of Next c' \<Rightarrow> run_schedule c' ts | Waits \<Rightarrow> None | Ended \<Rightarrow> None)
      else None)"

text \<open>
  Deadlock: no thread can move and one of them waits. Only a step of its holder
  releases a mutex, so such a configuration stays as it is.
\<close>

definition waits :: "config \<Rightarrow> nat \<Rightarrow> bool" where
  "waits c t = (case step t c of Waits \<Rightarrow> True | Next c' \<Rightarrow> False | Ended \<Rightarrow> False)"

definition moves :: "config \<Rightarrow> nat \<Rightarrow> bool" where
  "moves c t = (case step t c of Next c' \<Rightarrow> True | Waits \<Rightarrow> False | Ended \<Rightarrow> False)"

definition deadlocked :: "config \<Rightarrow> bool" where
  "deadlocked c =
     (list_ex (waits c) [0..<length (threads c)] \<and>
      \<not> list_ex (moves c) [0..<length (threads c)])"

subsection \<open>Example states\<close>

text \<open>
  A clock text as \<open>ctime\<close> returns it, two accounts as the first two passes of case 1
  create them, and the bank that holds them.
\<close>

abbreviation clock :: string where
  "clock \<equiv> ''Fri Oct 30 04:20:00 2026'' @ [CHR 0x0A]"

abbreviation acc1000 :: Account where
  "acc1000 \<equiv> \<lparr>accountNumber = 1000, accountName = ''A'', balance = 100, accountType = ''Savings''\<rparr>"

abbreviation acc1001 :: Account where
  "acc1001 \<equiv> \<lparr>accountNumber = 1001, accountName = ''B'', balance = 50, accountType = ''Current''\<rparr>"

abbreviation two_accounts :: Bank where
  "two_accounts \<equiv> \<lparr>accounts = [acc1000, acc1001], transactions = [], nextAccountNumber = 1002\<rparr>"

text \<open>
  Two threads that move money between the two accounts in opposite directions:
  thread 0 runs \<open>transfer\<close> from account 1000 to account 1001, thread 1 from 1001 to 1000.
\<close>

abbreviation opposite_transfers :: config where
  "opposite_transfers \<equiv>
     \<lparr>accs = [acc1000, acc1001], mutex = [None, None],
      threads = [\<lparr>at = Lock_this, this_acc = 0, to_acc = 1, th_amount = 30\<rparr>,
                 \<lparr>at = Lock_this, this_acc = 1, to_acc = 0, th_amount = 20\<rparr>]\<rparr>"

section \<open>Signed arithmetic without overflow\<close>

lemma sint_cint_range: "- 2147483648 \<le> sint (x :: cint) \<and> sint x \<le> 2147483647"
  using sint_ge [of x] sint_lt [of x] by simp

lemma sint_add_cint:
  fixes x y :: cint
  assumes "- 2147483648 \<le> sint x + sint y" and "sint x + sint y \<le> 2147483647"
  shows "sint (x + y) = sint x + sint y"
  using assms by (simp add: sint_word_add signed_take_bit_int_eq_self)

lemma sint_sub_cint:
  fixes x y :: cint
  assumes "- 2147483648 \<le> sint x - sint y" and "sint x - sint y \<le> 2147483647"
  shows "sint (x - y) = sint x - sint y"
  using assms by (simp add: sint_word_diff signed_take_bit_int_eq_self)

text \<open>Adding a positive amount that fits, and taking away a positive amount that is covered.\<close>

lemma sint_add_pos:
  fixes x a :: cint
  assumes "0 < sint a" and "sint x + sint a \<le> 2147483647"
  shows "sint (x + a) = sint x + sint a"
  using assms sint_cint_range [of x] by (intro sint_add_cint) linarith+

lemma sint_sub_pos:
  fixes x a :: cint
  assumes "0 < sint a" and "sint a \<le> sint x"
  shows "sint (x - a) = sint x - sint a"
  using assms sint_cint_range [of x] by (intro sint_sub_cint) linarith+

text \<open>The \<open>k\<close>-th number handed out, while it fits into an \<open>int\<close>.\<close>

lemma sint_number:
  assumes "k \<le> 2147482647"
  shows "sint (1000 + of_nat k :: cint) = 1000 + int k"
proof -
  have "sint (of_nat k :: cint) = int k"
    using assms by (simp add: signed_of_nat signed_take_bit_int_eq_self)
  moreover have "sint (1000 :: cint) = 1000" by simp
  ultimately show ?thesis
    using assms sint_add_cint [of 1000 "of_nat k"] by simp
qed

section \<open>Looking accounts up\<close>

lemma findAccount_loop_Some:
  "findAccount_loop as n k = Some i \<Longrightarrow>
     k \<le> i \<and> i - k < length as \<and> accountNumber (as ! (i - k)) = n"
proof (induction as arbitrary: k)
  case Nil
  then show ?case by simp
next
  case (Cons acc rest)
  show ?case
  proof (cases "accountNumber acc = n")
    case True
    with Cons.prems show ?thesis by simp
  next
    case False
    with Cons.prems have "findAccount_loop rest n (Suc k) = Some i" by simp
    from Cons.IH [OF this] show ?thesis
      by (auto simp: Suc_diff_le nth_Cons')
  qed
qed

lemma findAccount_Some:
  assumes "findAccount b n = Some i"
  shows "i < length (accounts b)" and "accountNumber (accounts b ! i) = n"
  using findAccount_loop_Some [of "accounts b" n 0 i] assms
  by (simp_all add: findAccount_def)

lemma findAccount_loop_append:
  "findAccount_loop (as @ bs) n k =
     (case findAccount_loop as n k of
        Some i \<Rightarrow> Some i
      | None \<Rightarrow> findAccount_loop bs n (k + length as))"
  by (induction as arbitrary: k) (simp_all split: option.splits)

section \<open>Updating one account of the vector\<close>

lemma numbers_update:
  assumes "accountNumber v = accountNumber (as ! i)"
  shows "map accountNumber (as[i := v]) = map accountNumber as"
  using assms
proof (induction as arbitrary: i)
  case Nil
  then show ?case by simp
next
  case (Cons x xs)
  then show ?case by (cases i) simp_all
qed

lemma total_update:
  assumes "i < length as"
  shows "total (as[i := v]) = total as - sint (balance (as ! i)) + sint (balance v)"
  using assms
proof (induction as arbitrary: i)
  case Nil
  then show ?case by simp
next
  case (Cons x xs)
  then show ?case by (cases i) (simp_all add: total_def)
qed

text \<open>\<open>transfer\<close> between two different accounts with a covered, positive amount.\<close>

lemma transfer_ok:
  assumes "i < length as" and "j < length as" and "i \<noteq> j"
    and "0 <s a" and "a \<le>s balance (as ! i)"
  shows "transfer as i j a =
     Some (True, as[i := (as ! i)\<lparr>balance := balance (as ! i) - a\<rparr>,
                    j := (as ! j)\<lparr>balance := balance (as ! j) + a\<rparr>])"
  using assms by (auto simp: transfer_def Let_def word_sle_eq word_sless_alt)

text \<open>\<open>transfer\<close> from an account to itself with such an amount never returns.\<close>

lemma self_transfer_never_returns:
  assumes "findAccount b x = Some i" and "0 <s a" and "a \<le>s balance (accounts b ! i)"
  shows "userMenu_case now b (Transfer x x a) = None"
  using assms by (auto simp: transfer_def Let_def word_sle_eq word_sless_alt)

text \<open>
  This is the only pass of the menu that does not return: a transfer between two numbers
  that \<open>findAccount\<close> resolves to the same account, with a positive amount the balance
  covers.
\<close>

lemma userMenu_case_None_iff:
  "userMenu_case now b c = None \<longleftrightarrow>
     (\<exists>x y a i. c = Transfer x y a \<and> findAccount b x = Some i \<and> findAccount b y = Some i \<and>
        0 <s a \<and> a \<le>s balance (accounts b ! i))"
proof (cases c)
  case (Transfer x y a)
  then show ?thesis
    by (auto simp: transfer_def Let_def word_sle_eq word_sless_alt
        split: option.splits prod.splits bool.splits if_splits)
qed (auto simp: createAccount_def split: option.splits prod.splits bool.splits)

section \<open>Balances along a run\<close>

lemma nonneg_nth:
  "nonneg b \<longleftrightarrow> (\<forall>k < length (accounts b). 0 \<le> sint (balance (accounts b ! k)))"
  by (simp add: nonneg_def list_all_length word_sle_eq)

lemma nonneg_step:
  assumes nn: "nonneg b" and ok: "admissible b c"
    and run: "userMenu_case now b c = Some (out, b')"
  shows "nonneg b'"
proof (cases c)
  case (Create name ty ini)
  with nn ok run show ?thesis
    by (auto simp: nonneg_def createAccount_def)
next
  case (Deposit n a)
  show ?thesis
  proof (cases "findAccount b n")
    case None
    with Deposit run nn show ?thesis by simp
  next
    case (Some i)
    then have i: "i < length (accounts b)" by (rule findAccount_Some)
    show ?thesis
    proof (cases "a \<le>s 0")
      case True
      with Deposit Some run nn show ?thesis by (simp add: deposit_def)
    next
      case False
      then have a0: "0 < sint a" by (simp add: word_sle_eq)
      from ok Deposit Some False have "sint (balance (accounts b ! i)) + sint a \<le> 2147483647"
        by (simp add: INT_MAX_def)
      with a0 have "sint (balance (accounts b ! i) + a) = sint (balance (accounts b ! i)) + sint a"
        by (rule sint_add_pos)
      moreover from nn i have "0 \<le> sint (balance (accounts b ! i))"
        by (simp add: nonneg_nth)
      ultimately have "0 \<le> sint (balance (accounts b ! i) + a)"
        using a0 by simp
      with Deposit Some False run nn i show ?thesis
        by (auto simp: deposit_def nonneg_nth recordTransaction_def nth_list_update)
    qed
  qed
next
  case (Withdraw n a)
  show ?thesis
  proof (cases "findAccount b n")
    case None
    with Withdraw run nn show ?thesis by simp
  next
    case (Some i)
    then have i: "i < length (accounts b)" by (rule findAccount_Some)
    show ?thesis
    proof (cases "a \<le>s 0 \<or> balance (accounts b ! i) <s a")
      case True
      with Withdraw Some run nn show ?thesis by (simp add: withdraw_def)
    next
      case False
      then have a0: "0 < sint a" and le: "sint a \<le> sint (balance (accounts b ! i))"
        by (simp_all add: word_sle_eq word_sless_alt)
      then have "sint (balance (accounts b ! i) - a) = sint (balance (accounts b ! i)) - sint a"
        by (rule sint_sub_pos)
      with le have "0 \<le> sint (balance (accounts b ! i) - a)" by simp
      with Withdraw Some False run nn i show ?thesis
        by (auto simp: withdraw_def nonneg_nth recordTransaction_def nth_list_update)
    qed
  qed
next
  case (Transfer n m a)
  show ?thesis
  proof (cases "findAccount b n")
    case None
    with Transfer run nn show ?thesis by simp
  next
    case fi: (Some i)
    then have i: "i < length (accounts b)" by (rule findAccount_Some)
    show ?thesis
    proof (cases "findAccount b m")
      case None
      with Transfer fi run nn show ?thesis by simp
    next
      case fj: (Some j)
      then have j: "j < length (accounts b)" by (rule findAccount_Some)
      show ?thesis
      proof (cases "a \<le>s 0 \<or> balance (accounts b ! i) <s a")
        case True
        with Transfer fi fj run nn show ?thesis by (auto simp: transfer_def)
      next
        case False
        then have pos: "0 <s a" and le: "a \<le>s balance (accounts b ! i)"
          by (simp_all add: word_sle_eq word_sless_alt)
        then have a0: "0 < sint a" and le': "sint a \<le> sint (balance (accounts b ! i))"
          by (simp_all add: word_sle_eq word_sless_alt)
        from False Transfer fi fj run have ij: "i \<noteq> j"
          by (auto simp: transfer_def Let_def)
        from a0 le'
        have "sint (balance (accounts b ! i) - a) = sint (balance (accounts b ! i)) - sint a"
          by (rule sint_sub_pos)
        with le' have deb: "0 \<le> sint (balance (accounts b ! i) - a)" by simp
        from ok Transfer fi fj False ij
        have "sint (balance (accounts b ! j)) + sint a \<le> 2147483647"
          by (auto simp: INT_MAX_def)
        with a0
        have "sint (balance (accounts b ! j) + a) = sint (balance (accounts b ! j)) + sint a"
          by (rule sint_add_pos)
        moreover from nn j have "0 \<le> sint (balance (accounts b ! j))"
          by (simp add: nonneg_nth)
        ultimately have cre: "0 \<le> sint (balance (accounts b ! j) + a)"
          using a0 by simp
        from Transfer fi fj run transfer_ok [OF i j ij pos le]
        have "accounts b' =
            (accounts b)[i := (accounts b ! i)\<lparr>balance := balance (accounts b ! i) - a\<rparr>,
                         j := (accounts b ! j)\<lparr>balance := balance (accounts b ! j) + a\<rparr>]"
          by (auto simp: recordTransaction_def)
        with nn i j ij deb cre show ?thesis
          by (auto simp: nonneg_nth nth_list_update)
      qed
    qed
  qed
next
  case (View n)
  with run nn show ?thesis by (auto split: if_splits option.splits)
next
  case History
  with run nn show ?thesis by simp
next
  case Other
  with run nn show ?thesis by simp
qed

lemma nonneg_run:
  "nonneg b \<Longrightarrow> admissible_run b cs \<Longrightarrow> userMenu b cs = Some (out, b') \<Longrightarrow> nonneg b'"
proof (induction cs arbitrary: b out)
  case Nil
  then show ?case by simp
next
  case (Cons p cs)
  obtain now c where p: "p = (now, c)" by (cases p)
  from Cons.prems(3) p obtain o1 b1 o2 where
    s1: "userMenu_case now b c = Some (o1, b1)" and s2: "userMenu b1 cs = Some (o2, b')"
    by (auto split: option.splits)
  from Cons.prems(2) p s1 have r1: "admissible b c" and r2: "admissible_run b1 cs"
    by simp_all
  from Cons.prems(1) r1 s1 have "nonneg b1" by (rule nonneg_step)
  from Cons.IH [OF this r2 s2] show ?case .
qed

lemma admissible_run_take: "admissible_run b cs \<Longrightarrow> admissible_run b (take k cs)"
proof (induction cs arbitrary: b k)
  case Nil
  then show ?case by simp
next
  case (Cons p cs)
  obtain now c where p: "p = (now, c)" by (cases p)
  show ?case
  proof (cases k)
    case 0
    then show ?thesis by simp
  next
    case (Suc k')
    with Cons p show ?thesis by (auto split: option.splits)
  qed
qed

section \<open>Account numbers along a run\<close>

lemma created_append: "created (xs @ ys) = created xs @ created ys"
  by (induction xs rule: created.induct) simp_all

lemma created_ShowAccount [simp]: "created (map ShowAccount as) = []"
  by (induction as) simp_all

lemma created_ShowTransaction [simp]: "created (map ShowTransaction ts) = []"
  by (induction ts) simp_all

text \<open>What one pass does to the account numbers and to the counter.\<close>

lemma numbers_step:
  assumes "userMenu_case now b c = Some (out, b')"
  shows "map accountNumber (accounts b') = map accountNumber (accounts b) @ created out \<and>
         nextAccountNumber b' = nextAccountNumber b + of_nat (length (created out)) \<and>
         created out = (case c of Create name ty ini \<Rightarrow> [nextAccountNumber b] | _ \<Rightarrow> [])"
proof (cases c)
  case (Create name ty ini)
  with assms show ?thesis by (auto simp: createAccount_def)
next
  case (Deposit n a)
  with assms show ?thesis
    by (auto simp: deposit_def recordTransaction_def numbers_update split: option.splits if_splits)
next
  case (Withdraw n a)
  with assms show ?thesis
    by (auto simp: withdraw_def recordTransaction_def numbers_update split: option.splits if_splits)
next
  case (Transfer n m a)
  with assms show ?thesis
    by (auto simp: transfer_def Let_def recordTransaction_def numbers_update
        split: option.splits if_splits)
next
  case (View n)
  with assms show ?thesis by (auto split: option.splits if_splits)
next
  case History
  with assms show ?thesis by auto
next
  case Other
  with assms show ?thesis by auto
qed

text \<open>
  Along a run the numbers of the registry grow by the numbers announced, which count up
  from the counter one by one (in the arithmetic of \<open>int\<close>, wrapping included).
\<close>

lemma numbers_run:
  "userMenu b cs = Some (out, b') \<Longrightarrow>
     map accountNumber (accounts b') = map accountNumber (accounts b) @ created out \<and>
     nextAccountNumber b' = nextAccountNumber b + of_nat (length (created out)) \<and>
     (\<forall>k < length (created out). created out ! k = nextAccountNumber b + of_nat k)"
proof (induction cs arbitrary: b out)
  case Nil
  then show ?case by simp
next
  case (Cons p cs)
  obtain now c where p: "p = (now, c)" by (cases p)
  from Cons.prems p obtain o1 b1 o2 where
    s1: "userMenu_case now b c = Some (o1, b1)" and s2: "userMenu b1 cs = Some (o2, b')"
    and out: "created out = created o1 @ created o2"
    by (auto simp: created_append split: option.splits)
  from numbers_step [OF s1] have
    a1: "map accountNumber (accounts b1) = map accountNumber (accounts b) @ created o1" and
    c1: "nextAccountNumber b1 = nextAccountNumber b + of_nat (length (created o1))" and
    n1: "\<forall>k < length (created o1). created o1 ! k = nextAccountNumber b + of_nat k"
    by (cases c; simp)+
  from Cons.IH [OF s2] have
    a2: "map accountNumber (accounts b') = map accountNumber (accounts b1) @ created o2" and
    c2: "nextAccountNumber b' = nextAccountNumber b1 + of_nat (length (created o2))" and
    n2: "\<forall>k < length (created o2). created o2 ! k = nextAccountNumber b1 + of_nat k"
    by simp_all
  have "map accountNumber (accounts b') = map accountNumber (accounts b) @ created out"
    using a1 a2 out by simp
  moreover have "nextAccountNumber b' = nextAccountNumber b + of_nat (length (created out))"
    using c1 c2 out by (simp add: add.assoc)
  moreover have "created out ! k = nextAccountNumber b + of_nat k"
    if "k < length (created out)" for k
  proof (cases "k < length (created o1)")
    case True
    with n1 out show ?thesis by (simp add: nth_append)
  next
    case False
    with that out have "k - length (created o1) < length (created o2)" by simp
    with n2 have "created o2 ! (k - length (created o1)) =
        nextAccountNumber b1 + of_nat (k - length (created o1))" by blast
    also have "\<dots> = nextAccountNumber b + of_nat (length (created o1) + (k - length (created o1)))"
      unfolding c1 of_nat_add by (simp only: add.assoc)
    also have "length (created o1) + (k - length (created o1)) = k"
      using False by simp
    finally show ?thesis using False out by (simp add: nth_append)
  qed
  ultimately show ?case by blast
qed

text \<open>A run that only opens accounts returns, with one number for each pass.\<close>

lemma creates_return:
  "creates_only cs \<Longrightarrow>
     \<exists>out b'. userMenu b cs = Some (out, b') \<and> length (created out) = length cs"
proof (induction cs arbitrary: b rule: creates_only.induct)
  case 1
  then show ?case by simp
next
  case (2 now name ty ini rest)
  then have "creates_only rest" by simp
  from "2.IH" [OF this, of "snd (createAccount b name ty ini)"] show ?case
    by (auto simp: createAccount_def)
qed simp_all

lemma creates_only_replicate: "creates_only (replicate n (now, Create name ty ini))"
  by (induction n) simp_all

section \<open>Threads\<close>

lemma run_thread_Return:
  "at (threads c ! t) = Return r \<Longrightarrow> run_thread n t c = Finished c"
  by (cases n) (simp_all add: step_def)

lemma replicate_update_same:
  "i < m \<Longrightarrow> (replicate m x)[i := x] = replicate m x"
  by (rule nth_equalityI) (auto simp: nth_list_update)

lemma free_again:
  "i < m \<Longrightarrow> j < m \<Longrightarrow> (replicate m x)[i := y, j := x, i := x] = replicate m x"
  by (rule nth_equalityI) (auto simp: nth_list_update)

text \<open>
  A single thread that starts \<open>transfer\<close> with every mutex free and is given five steps
  or more ends with the result and the accounts of the function \<open>transfer\<close>, all mutexes
  free again; where the function has no result the thread is stuck at line 93, holding
  the mutex of its own account, the debit of line 92 already made.
\<close>

lemma transfer_run_thread:
  assumes i: "i < length as" and j: "j < length as"
  shows "run_thread (5 + n) 0
           \<lparr>accs = as, mutex = replicate (length as) None,
            threads = [\<lparr>at = Lock_this, this_acc = i, to_acc = j, th_amount = a\<rparr>]\<rparr> =
         (case transfer as i j a of
            Some (r, as') \<Rightarrow>
              Finished \<lparr>accs = as', mutex = replicate (length as) None,
                        threads = [\<lparr>at = Return r, this_acc = i, to_acc = j, th_amount = a\<rparr>]\<rparr>
          | None \<Rightarrow>
              Stuck \<lparr>accs = as[i := (as ! i)\<lparr>balance := balance (as ! i) - a\<rparr>],
                     mutex = (replicate (length as) None)[i := Some 0],
                     threads = [\<lparr>at = Lock_target, this_acc = i, to_acc = j, th_amount = a\<rparr>]\<rparr>)"
proof -
  have five: "5 + n = Suc (Suc (Suc (Suc (Suc n))))" by simp
  show ?thesis
  proof (cases "a \<le>s 0 \<or> balance (as ! i) <s a")
    case True
    with i show ?thesis
      unfolding five
      by (simp add: step_def goto_def transfer_def run_thread_Return replicate_update_same)
  next
    case False
    show ?thesis
    proof (cases "j = i")
      case True
      with False i show ?thesis
        unfolding five
        by (simp add: step_def goto_def transfer_def Let_def)
    next
      case ne: False
      with False i j show ?thesis
        unfolding five
        by (simp add: step_def goto_def transfer_def Let_def run_thread_Return free_again)
    qed
  qed
qed

text \<open>No schedule leads out of a deadlock.\<close>

lemma deadlocked_stays:
  assumes "deadlocked c"
  shows "run_schedule c (t # ts) = None"
proof (cases "t < length (threads c)")
  case True
  with assms have "\<not> moves c t"
    by (auto simp: deadlocked_def list_ex_iff)
  with True show ?thesis
    by (simp add: moves_def split: progress.splits)
next
  case False
  then show ?thesis by simp
qed

text \<open>The first mutex a thread takes is the one of its own account, \<open>this\<close>.\<close>

lemma step_Lock_this:
  assumes "t < length (threads c)" and "at (threads c ! t) = Lock_this"
    and "this_acc (threads c ! t) < length (mutex c)"
    and "mutex c ! this_acc (threads c ! t) = None"
  shows "\<exists>c'. step t c = Next c' \<and> mutex c' = (mutex c)[this_acc (threads c ! t) := Some t] \<and>
           at (threads c' ! t) = Check"
  using assms by (simp add: step_def goto_def Let_def)

text \<open>
  Two threads that transfer between two different accounts in opposite directions, each
  with a positive amount its account covers: when each has run up to its second lock, the
  first thread holds the mutex of \<open>i\<close>, the second that of \<open>j\<close>, and neither can move.
\<close>

lemma opposite_directions_deadlock:
  assumes i: "i < length as" and j: "j < length as" and ij: "i \<noteq> j"
    and a: "0 <s a" "a \<le>s balance (as ! i)"
    and b: "0 <s b" "b \<le>s balance (as ! j)"
  shows "\<exists>c. run_schedule
              \<lparr>accs = as, mutex = replicate (length as) None,
               threads = [\<lparr>at = Lock_this, this_acc = i, to_acc = j, th_amount = a\<rparr>,
                          \<lparr>at = Lock_this, this_acc = j, to_acc = i, th_amount = b\<rparr>]\<rparr>
              [0, 0, 0, 1, 1, 1] = Some c \<and>
             mutex c ! i = Some 0 \<and> mutex c ! j = Some 1 \<and> deadlocked c"
proof -
  have a': "\<not> a \<le>s 0" "\<not> balance (as ! i) <s a"
    using a by (simp_all add: word_sle_eq word_sless_alt)
  have b': "\<not> b \<le>s 0" "\<not> balance (as ! j) <s b"
    using b by (simp_all add: word_sle_eq word_sless_alt)
  have two: "[0..<2] = [0, Suc 0]" by (simp add: upt_rec)
  show ?thesis
    using i j ij a' b'
    by (simp add: step_def goto_def Let_def deadlocked_def waits_def moves_def two
        nth_list_update)
qed

section \<open>Single-account operations\<close>

text \<open>
  C4. \<open>withdraw\<close> on every account and every amount: with \<open>0 < amount \<le> balance\<close> it
  returns true and the balance goes down by exactly the amount; with an amount above the
  balance (insufficient funds) or an amount \<open>\<le> 0\<close> (invalid amount) it returns false and
  the account is unchanged. The function has one failure value, \<open>false\<close>, for both.
\<close>

theorem withdraw_spec:
  "(0 <s amt \<and> amt \<le>s balance acc \<longrightarrow>
      fst (withdraw acc amt) \<and>
      sint (balance (snd (withdraw acc amt))) = sint (balance acc) - sint amt \<and>
      snd (withdraw acc amt) = acc\<lparr>balance := balance acc - amt\<rparr>) \<and>
   (balance acc <s amt \<longrightarrow> withdraw acc amt = (False, acc)) \<and>
   (amt \<le>s 0 \<longrightarrow> withdraw acc amt = (False, acc))"
proof -
  have "sint (balance acc - amt) = sint (balance acc) - sint amt"
    if "0 < sint amt" and "sint amt \<le> sint (balance acc)"
    using that by (rule sint_sub_pos)
  then show ?thesis
    by (auto simp: withdraw_def word_sle_eq word_sless_alt)
qed

theorem withdraw_spec_witness:
  "0 <s (30 :: cint) \<and> 30 \<le>s balance acc1000 \<and>
   fst (withdraw acc1000 30) \<and> sint (balance (snd (withdraw acc1000 30))) = 70 \<and>
   balance acc1000 <s 101 \<and> withdraw acc1000 101 = (False, acc1000) \<and>
   (0 :: cint) \<le>s 0 \<and> withdraw acc1000 0 = (False, acc1000)"
  using withdraw_spec [of 30 acc1000] withdraw_spec [of 101 acc1000] withdraw_spec [of 0 acc1000]
  by (simp add: word_sle_eq word_sless_alt)

text \<open>
  C5, as the code has it. \<open>deposit\<close> on every account: with an amount \<open>\<le> 0\<close> it returns
  false and the account is unchanged; with an amount \<open>> 0\<close> whose sum with the balance is
  at most \<open>INT_MAX\<close> it returns true and the balance goes up by exactly the amount.
\<close>

theorem deposit_spec:
  "(0 <s amt \<and> sint (balance acc) + sint amt \<le> INT_MAX \<longrightarrow>
      fst (deposit acc amt) \<and>
      sint (balance (snd (deposit acc amt))) = sint (balance acc) + sint amt \<and>
      snd (deposit acc amt) = acc\<lparr>balance := balance acc + amt\<rparr>) \<and>
   (amt \<le>s 0 \<longrightarrow> deposit acc amt = (False, acc))"
proof -
  have "sint (balance acc + amt) = sint (balance acc) + sint amt"
    if "0 < sint amt" and "sint (balance acc) + sint amt \<le> 2147483647"
    using that by (rule sint_add_pos)
  then show ?thesis
    by (auto simp: deposit_def word_sle_eq word_sless_alt INT_MAX_def)
qed

theorem deposit_spec_witness:
  "0 <s (5 :: cint) \<and> sint (balance acc1000) + sint (5 :: cint) \<le> INT_MAX \<and>
   fst (deposit acc1000 5) \<and> sint (balance (snd (deposit acc1000 5))) = 105 \<and>
   (- 5 :: cint) \<le>s 0 \<and> deposit acc1000 (- 5) = (False, acc1000)"
  using deposit_spec [of 5 acc1000] deposit_spec [of "- 5" acc1000]
  by (simp add: word_sle_eq word_sless_alt INT_MAX_def)

text \<open>
  C5 as stated fails where the sum leaves the range of \<open>int\<close>: on a balance of
  \<open>INT_MAX\<close> a deposit of 1 returns true and the balance read back is \<open>INT_MIN\<close>, not
  the old balance plus 1.
\<close>

theorem deposit_overflow_counterexample:
  "0 <s (1 :: cint) \<and>
   fst (deposit (acc1000\<lparr>balance := 2147483647\<rparr>) 1) \<and>
   sint (balance (snd (deposit (acc1000\<lparr>balance := 2147483647\<rparr>) 1))) = - 2147483648 \<and>
   sint (balance (snd (deposit (acc1000\<lparr>balance := 2147483647\<rparr>) 1)))
     \<noteq> sint (balance (acc1000\<lparr>balance := 2147483647\<rparr>)) + sint (1 :: cint)"
  by (simp add: deposit_def word_sle_eq word_sless_alt)

section \<open>Opening accounts\<close>

text \<open>
  C9. \<open>createAccount\<close> checks nothing: for every initial balance, zero and negative ones
  included, it returns the counter's value and appends to the registry an account with
  that number and exactly that balance; case 1 of the menu announces the number. Where
  the number was not in the registry before, \<open>findAccount\<close> now finds the new account.
\<close>

theorem createAccount_unvalidated:
  "fst (createAccount b name typ initialBalance) = nextAccountNumber b \<and>
   accounts (snd (createAccount b name typ initialBalance)) =
     accounts b @ [\<lparr>accountNumber = nextAccountNumber b, accountName = name,
                    balance = initialBalance, accountType = typ\<rparr>] \<and>
   userMenu_case now b (Create name typ initialBalance) =
     Some ([AccountCreated (nextAccountNumber b)], snd (createAccount b name typ initialBalance)) \<and>
   (findAccount b (nextAccountNumber b) = None \<longrightarrow>
      findAccount (snd (createAccount b name typ initialBalance)) (nextAccountNumber b)
        = Some (length (accounts b)))"
proof -
  let ?new = "\<lparr>accountNumber = nextAccountNumber b, accountName = name,
               balance = initialBalance, accountType = typ\<rparr>"
  let ?b' = "snd (createAccount b name typ initialBalance)"
  have ret: "fst (createAccount b name typ initialBalance) = nextAccountNumber b"
    by (simp add: createAccount_def)
  have reg: "accounts ?b' = accounts b @ [?new]"
    by (simp add: createAccount_def)
  have menu: "userMenu_case now b (Create name typ initialBalance) =
      Some ([AccountCreated (nextAccountNumber b)], ?b')"
    by (simp add: createAccount_def)
  have found: "findAccount ?b' (nextAccountNumber b) = Some (length (accounts b))"
    if "findAccount b (nextAccountNumber b) = None"
    using that unfolding findAccount_def reg findAccount_loop_append by simp
  from ret reg menu found show ?thesis by blast
qed

theorem createAccount_unvalidated_witness:
  "findAccount two_accounts (nextAccountNumber two_accounts) = None \<and>
   fst (createAccount two_accounts ''C'' ''Savings'' (- 5)) = 1002 \<and>
   accounts (snd (createAccount two_accounts ''C'' ''Savings'' (- 5))) =
     [acc1000, acc1001,
      \<lparr>accountNumber = 1002, accountName = ''C'', balance = - 5, accountType = ''Savings''\<rparr>] \<and>
   findAccount (snd (createAccount two_accounts ''C'' ''Savings'' (- 5))) 1002 = Some 2"
  using createAccount_unvalidated [of two_accounts "''C''" "''Savings''" "- 5" clock]
  by (simp add: findAccount_def)

section \<open>Operations of the menu\<close>

text \<open>
  C8. A deposit, withdrawal or transfer that fails leaves the whole bank (every account and
  the transaction log) as it was, and the failure is the value returned to the menu:
  \<open>findAccount\<close> returns no account for an unregistered number, and \<open>deposit\<close>,
  \<open>withdraw\<close> and \<open>transfer\<close> return false for an amount that is not positive or, for
  the last two, exceeds the balance. The menu prints a message for an unknown (source)
  account only.
\<close>

theorem failed_operation_unchanged:
  "(findAccount b n = None \<longrightarrow>
      userMenu_case now b (Deposit n a) = Some ([InvalidAccount], b) \<and>
      userMenu_case now b (Withdraw n a) = Some ([InvalidAccount], b) \<and>
      userMenu_case now b (Transfer n m a) = Some ([InvalidAccounts], b)) \<and>
   (findAccount b n = Some i \<and> findAccount b m = None \<longrightarrow>
      userMenu_case now b (Transfer n m a) = Some ([], b)) \<and>
   (findAccount b n = Some i \<and> a \<le>s 0 \<longrightarrow>
      deposit (accounts b ! i) a = (False, accounts b ! i) \<and>
      userMenu_case now b (Deposit n a) = Some ([], b)) \<and>
   (findAccount b n = Some i \<and> (a \<le>s 0 \<or> balance (accounts b ! i) <s a) \<longrightarrow>
      withdraw (accounts b ! i) a = (False, accounts b ! i) \<and>
      userMenu_case now b (Withdraw n a) = Some ([], b)) \<and>
   (findAccount b n = Some i \<and> findAccount b m = Some j \<and>
    (a \<le>s 0 \<or> balance (accounts b ! i) <s a) \<longrightarrow>
      transfer (accounts b) i j a = Some (False, accounts b) \<and>
      userMenu_case now b (Transfer n m a) = Some ([], b))"
proof -
  have same: "b\<lparr>accounts := (accounts b)[i := accounts b ! i]\<rparr> = b"
    by simp
  have unknown: "userMenu_case now b (Deposit n a) = Some ([InvalidAccount], b) \<and>
      userMenu_case now b (Withdraw n a) = Some ([InvalidAccount], b) \<and>
      userMenu_case now b (Transfer n m a) = Some ([InvalidAccounts], b)"
    if "findAccount b n = None"
    using that by simp
  have no_target: "userMenu_case now b (Transfer n m a) = Some ([], b)"
    if "findAccount b n = Some i" and "findAccount b m = None"
    using that by simp
  have dep: "deposit (accounts b ! i) a = (False, accounts b ! i) \<and>
      userMenu_case now b (Deposit n a) = Some ([], b)"
    if f: "findAccount b n = Some i" and bad: "a \<le>s 0"
  proof -
    from bad have "deposit (accounts b ! i) a = (False, accounts b ! i)"
      by (simp add: deposit_def)
    with f same show ?thesis by simp
  qed
  have wd: "withdraw (accounts b ! i) a = (False, accounts b ! i) \<and>
      userMenu_case now b (Withdraw n a) = Some ([], b)"
    if f: "findAccount b n = Some i" and bad: "a \<le>s 0 \<or> balance (accounts b ! i) <s a"
  proof -
    from bad have "withdraw (accounts b ! i) a = (False, accounts b ! i)"
      by (simp add: withdraw_def)
    with f same show ?thesis by simp
  qed
  have tr: "transfer (accounts b) i j a = Some (False, accounts b) \<and>
      userMenu_case now b (Transfer n m a) = Some ([], b)"
    if f: "findAccount b n = Some i" and g: "findAccount b m = Some j"
      and bad: "a \<le>s 0 \<or> balance (accounts b ! i) <s a"
  proof -
    from bad have "transfer (accounts b) i j a = Some (False, accounts b)"
      by (simp add: transfer_def)
    with f g show ?thesis by simp
  qed
  from unknown no_target dep wd tr show ?thesis by blast
qed

theorem failed_operation_unchanged_witness:
  "findAccount two_accounts 7 = None \<and>
   userMenu_case clock two_accounts (Deposit 7 10) = Some ([InvalidAccount], two_accounts) \<and>
   userMenu_case clock two_accounts (Withdraw 7 10) = Some ([InvalidAccount], two_accounts) \<and>
   userMenu_case clock two_accounts (Transfer 7 1001 10) = Some ([InvalidAccounts], two_accounts) \<and>
   findAccount two_accounts 1000 = Some 0 \<and>
   userMenu_case clock two_accounts (Transfer 1000 7 10) = Some ([], two_accounts) \<and>
   (0 :: cint) \<le>s 0 \<and>
   userMenu_case clock two_accounts (Deposit 1000 0) = Some ([], two_accounts) \<and>
   findAccount two_accounts 1001 = Some 1 \<and>
   balance (accounts two_accounts ! 0) <s 1000 \<and>
   userMenu_case clock two_accounts (Withdraw 1000 1000) = Some ([], two_accounts) \<and>
   transfer (accounts two_accounts) 0 1 1000 = Some (False, accounts two_accounts) \<and>
   userMenu_case clock two_accounts (Transfer 1000 1001 1000) = Some ([], two_accounts)"
proof -
  have none: "findAccount two_accounts 7 = None"
    and f0: "findAccount two_accounts 1000 = Some 0"
    and f1: "findAccount two_accounts 1001 = Some 1"
    by (simp_all add: findAccount_def)
  have zero: "(0 :: cint) \<le>s 0" and over: "balance (accounts two_accounts ! 0) <s 1000"
    by (simp_all add: word_sle_eq word_sless_alt)
  from failed_operation_unchanged [of two_accounts 7 clock 10 1001 0 0] none
  have "userMenu_case clock two_accounts (Deposit 7 10) = Some ([InvalidAccount], two_accounts)"
    and "userMenu_case clock two_accounts (Withdraw 7 10) = Some ([InvalidAccount], two_accounts)"
    and "userMenu_case clock two_accounts (Transfer 7 1001 10) = Some ([InvalidAccounts], two_accounts)"
    by blast+
  moreover from failed_operation_unchanged [of two_accounts 1000 clock 10 7 0 0] f0 none
  have "userMenu_case clock two_accounts (Transfer 1000 7 10) = Some ([], two_accounts)"
    by blast
  moreover from failed_operation_unchanged [of two_accounts 1000 clock 0 7 0 0] f0 zero
  have "userMenu_case clock two_accounts (Deposit 1000 0) = Some ([], two_accounts)"
    by blast
  moreover from failed_operation_unchanged [of two_accounts 1000 clock 1000 1001 0 1] f0 f1 over
  have "userMenu_case clock two_accounts (Withdraw 1000 1000) = Some ([], two_accounts)"
    and "transfer (accounts two_accounts) 0 1 1000 = Some (False, accounts two_accounts)"
    and "userMenu_case clock two_accounts (Transfer 1000 1001 1000) = Some ([], two_accounts)"
    by blast+
  ultimately show ?thesis using none f0 f1 zero over by blast
qed

text \<open>
  Whatever a pass prints, the log has grown by one record of the operation when the success
  message is among it and is unchanged otherwise.
\<close>

lemma log_follows_message:
  "(case userMenu_case now b (Deposit n a) of
      None \<Rightarrow> False
    | Some (out, b') \<Rightarrow>
        transactions b' =
          (if DepositedSuccessfully \<in> set out
           then transactions b @
                  [mkTransaction now (of_nat (length (transactions b) + 1)) ''Deposit'' a n (- 1)]
           else transactions b)) \<and>
   (case userMenu_case now b (Withdraw n a) of
      None \<Rightarrow> False
    | Some (out, b') \<Rightarrow>
        transactions b' =
          (if WithdrawalSuccessful \<in> set out
           then transactions b @
                  [mkTransaction now (of_nat (length (transactions b) + 1)) ''Withdraw'' a n (- 1)]
           else transactions b)) \<and>
   (userMenu_case now b (Transfer n m a) = Some (out, b') \<longrightarrow>
        transactions b' =
          (if TransferSuccessful \<in> set out
           then transactions b @
                  [mkTransaction now (of_nat (length (transactions b) + 1)) ''Transfer'' a n m]
           else transactions b))"
proof (intro conjI impI)
  show "case userMenu_case now b (Deposit n a) of
      None \<Rightarrow> False
    | Some (out, b') \<Rightarrow>
        transactions b' =
          (if DepositedSuccessfully \<in> set out
           then transactions b @
                  [mkTransaction now (of_nat (length (transactions b) + 1)) ''Deposit'' a n (- 1)]
           else transactions b)"
  proof (cases "findAccount b n")
    case None
    then show ?thesis by simp
  next
    case (Some i)
    then show ?thesis
      by (cases "deposit (accounts b ! i) a"; cases "fst (deposit (accounts b ! i) a)")
        (simp_all add: recordTransaction_def)
  qed
  show "case userMenu_case now b (Withdraw n a) of
      None \<Rightarrow> False
    | Some (out, b') \<Rightarrow>
        transactions b' =
          (if WithdrawalSuccessful \<in> set out
           then transactions b @
                  [mkTransaction now (of_nat (length (transactions b) + 1)) ''Withdraw'' a n (- 1)]
           else transactions b)"
  proof (cases "findAccount b n")
    case None
    then show ?thesis by simp
  next
    case (Some i)
    then show ?thesis
      by (cases "withdraw (accounts b ! i) a"; cases "fst (withdraw (accounts b ! i) a)")
        (simp_all add: recordTransaction_def)
  qed
  assume run: "userMenu_case now b (Transfer n m a) = Some (out, b')"
  show "transactions b' =
          (if TransferSuccessful \<in> set out
           then transactions b @
                  [mkTransaction now (of_nat (length (transactions b) + 1)) ''Transfer'' a n m]
           else transactions b)"
  proof (cases "findAccount b n")
    case None
    with run show ?thesis by auto
  next
    case fi: (Some i)
    show ?thesis
    proof (cases "findAccount b m")
      case None
      with fi run show ?thesis by auto
    next
      case fj: (Some j)
      from run fi fj obtain r as' where t: "transfer (accounts b) i j a = Some (r, as')"
        by (cases "transfer (accounts b) i j a") auto
      with run fi fj show ?thesis
        by (cases r) (auto simp: recordTransaction_def)
    qed
  qed
qed

text \<open>The success message is printed exactly when the account operation returned true.\<close>

lemma success_message_iff:
  "userMenu_case now b (Deposit n a) = Some (out, b') \<Longrightarrow>
     DepositedSuccessfully \<in> set out \<longleftrightarrow>
       (\<exists>i. findAccount b n = Some i \<and> fst (deposit (accounts b ! i) a))"
  "userMenu_case now b (Withdraw n a) = Some (out, b') \<Longrightarrow>
     WithdrawalSuccessful \<in> set out \<longleftrightarrow>
       (\<exists>i. findAccount b n = Some i \<and> fst (withdraw (accounts b ! i) a))"
  "userMenu_case now b (Transfer n m a) = Some (out, b') \<Longrightarrow>
     TransferSuccessful \<in> set out \<longleftrightarrow>
       (\<exists>i j as'. findAccount b n = Some i \<and> findAccount b m = Some j \<and>
          transfer (accounts b) i j a = Some (True, as'))"
  by (auto split: option.splits prod.splits bool.splits)

text \<open>
  C7. A deposit, withdrawal or transfer succeeds when the account(s) are found and
  \<open>deposit\<close>, \<open>withdraw\<close> or \<open>transfer\<close> returns true. The pass then prints its success
  message, stores the account(s) as the operation left them and appends exactly one record
  to the log: the next id, the type of the operation, its amount and its account
  number(s) (\<open>-1\<close> as target of a deposit or withdrawal), the clock text without its
  last character. When the operation returns false or an account is not found, the pass
  returns the bank as it was, with no record and no success message; a transfer that does
  not return appends nothing. Hence in every pass that returns, the log has grown by that
  one record exactly when the success message was printed.
\<close>

theorem log_fidelity:
  "(findAccount b n = Some i \<and> fst (deposit (accounts b ! i) a) \<longrightarrow>
      userMenu_case now b (Deposit n a) =
        Some ([DepositedSuccessfully],
              \<lparr>accounts = (accounts b)[i := snd (deposit (accounts b ! i) a)],
               transactions = transactions b @
                 [\<lparr>transactionId = of_nat (length (transactions b) + 1), type = ''Deposit'',
                   amount = a, fromAccount = n, toAccount = - 1, timestamp = butlast now\<rparr>],
               nextAccountNumber = nextAccountNumber b\<rparr>)) \<and>
   (findAccount b n = Some i \<and> \<not> fst (deposit (accounts b ! i) a) \<longrightarrow>
      userMenu_case now b (Deposit n a) = Some ([], b)) \<and>
   (findAccount b n = None \<longrightarrow>
      userMenu_case now b (Deposit n a) = Some ([InvalidAccount], b)) \<and>
   (findAccount b n = Some i \<and> fst (withdraw (accounts b ! i) a) \<longrightarrow>
      userMenu_case now b (Withdraw n a) =
        Some ([WithdrawalSuccessful],
              \<lparr>accounts = (accounts b)[i := snd (withdraw (accounts b ! i) a)],
               transactions = transactions b @
                 [\<lparr>transactionId = of_nat (length (transactions b) + 1), type = ''Withdraw'',
                   amount = a, fromAccount = n, toAccount = - 1, timestamp = butlast now\<rparr>],
               nextAccountNumber = nextAccountNumber b\<rparr>)) \<and>
   (findAccount b n = Some i \<and> \<not> fst (withdraw (accounts b ! i) a) \<longrightarrow>
      userMenu_case now b (Withdraw n a) = Some ([], b)) \<and>
   (findAccount b n = None \<longrightarrow>
      userMenu_case now b (Withdraw n a) = Some ([InvalidAccount], b)) \<and>
   (findAccount b n = Some i \<and> findAccount b m = Some j \<and>
    transfer (accounts b) i j a = Some (True, as') \<longrightarrow>
      userMenu_case now b (Transfer n m a) =
        Some ([TransferSuccessful],
              \<lparr>accounts = as',
               transactions = transactions b @
                 [\<lparr>transactionId = of_nat (length (transactions b) + 1), type = ''Transfer'',
                   amount = a, fromAccount = n, toAccount = m, timestamp = butlast now\<rparr>],
               nextAccountNumber = nextAccountNumber b\<rparr>)) \<and>
   (findAccount b n = Some i \<and> findAccount b m = Some j \<and>
    transfer (accounts b) i j a = Some (False, as') \<longrightarrow>
      userMenu_case now b (Transfer n m a) = Some ([], b)) \<and>
   (findAccount b n = Some i \<and> findAccount b m = Some j \<and>
    transfer (accounts b) i j a = None \<longrightarrow>
      userMenu_case now b (Transfer n m a) = None) \<and>
   (findAccount b n = Some i \<and> findAccount b m = None \<longrightarrow>
      userMenu_case now b (Transfer n m a) = Some ([], b)) \<and>
   (findAccount b n = None \<longrightarrow>
      userMenu_case now b (Transfer n m a) = Some ([InvalidAccounts], b)) \<and>
   (case userMenu_case now b (Deposit n a) of
      None \<Rightarrow> False
    | Some (out, b') \<Rightarrow>
        transactions b' =
          (if DepositedSuccessfully \<in> set out
           then transactions b @
                  [mkTransaction now (of_nat (length (transactions b) + 1)) ''Deposit'' a n (- 1)]
           else transactions b)) \<and>
   (case userMenu_case now b (Withdraw n a) of
      None \<Rightarrow> False
    | Some (out, b') \<Rightarrow>
        transactions b' =
          (if WithdrawalSuccessful \<in> set out
           then transactions b @
                  [mkTransaction now (of_nat (length (transactions b) + 1)) ''Withdraw'' a n (- 1)]
           else transactions b)) \<and>
   (userMenu_case now b (Transfer n m a) = Some (out, b') \<longrightarrow>
        transactions b' =
          (if TransferSuccessful \<in> set out
           then transactions b @
                  [mkTransaction now (of_nat (length (transactions b) + 1)) ''Transfer'' a n m]
           else transactions b))"
proof -
  have same: "b\<lparr>accounts := (accounts b)[i := accounts b ! i]\<rparr> = b"
    by simp
  have dep_t: "userMenu_case now b (Deposit n a) =
        Some ([DepositedSuccessfully],
              \<lparr>accounts = (accounts b)[i := snd (deposit (accounts b ! i) a)],
               transactions = transactions b @
                 [\<lparr>transactionId = of_nat (length (transactions b) + 1), type = ''Deposit'',
                   amount = a, fromAccount = n, toAccount = - 1, timestamp = butlast now\<rparr>],
               nextAccountNumber = nextAccountNumber b\<rparr>)"
    if "findAccount b n = Some i" and "fst (deposit (accounts b ! i) a)"
    using that
    by (cases "deposit (accounts b ! i) a") (simp add: recordTransaction_def mkTransaction_def)
  have dep_f: "userMenu_case now b (Deposit n a) = Some ([], b)"
    if f: "findAccount b n = Some i" and r: "\<not> fst (deposit (accounts b ! i) a)"
  proof -
    from r have "deposit (accounts b ! i) a = (False, accounts b ! i)"
      by (simp add: deposit_def split: if_splits)
    with f same show ?thesis by simp
  qed
  have wd_t: "userMenu_case now b (Withdraw n a) =
        Some ([WithdrawalSuccessful],
              \<lparr>accounts = (accounts b)[i := snd (withdraw (accounts b ! i) a)],
               transactions = transactions b @
                 [\<lparr>transactionId = of_nat (length (transactions b) + 1), type = ''Withdraw'',
                   amount = a, fromAccount = n, toAccount = - 1, timestamp = butlast now\<rparr>],
               nextAccountNumber = nextAccountNumber b\<rparr>)"
    if "findAccount b n = Some i" and "fst (withdraw (accounts b ! i) a)"
    using that
    by (cases "withdraw (accounts b ! i) a") (simp add: recordTransaction_def mkTransaction_def)
  have wd_f: "userMenu_case now b (Withdraw n a) = Some ([], b)"
    if f: "findAccount b n = Some i" and r: "\<not> fst (withdraw (accounts b ! i) a)"
  proof -
    from r have "withdraw (accounts b ! i) a = (False, accounts b ! i)"
      by (simp add: withdraw_def split: if_splits)
    with f same show ?thesis by simp
  qed
  have tr_t: "userMenu_case now b (Transfer n m a) =
        Some ([TransferSuccessful],
              \<lparr>accounts = as',
               transactions = transactions b @
                 [\<lparr>transactionId = of_nat (length (transactions b) + 1), type = ''Transfer'',
                   amount = a, fromAccount = n, toAccount = m, timestamp = butlast now\<rparr>],
               nextAccountNumber = nextAccountNumber b\<rparr>)"
    if "findAccount b n = Some i" and "findAccount b m = Some j"
      and "transfer (accounts b) i j a = Some (True, as')"
    using that by (simp add: recordTransaction_def mkTransaction_def)
  have tr_f: "userMenu_case now b (Transfer n m a) = Some ([], b)"
    if f: "findAccount b n = Some i" and g: "findAccount b m = Some j"
      and r: "transfer (accounts b) i j a = Some (False, as')"
  proof -
    from r have "as' = accounts b"
      by (simp add: transfer_def Let_def split: if_splits)
    with f g r show ?thesis by simp
  qed
  have tr_n: "userMenu_case now b (Transfer n m a) = None"
    if "findAccount b n = Some i" and "findAccount b m = Some j"
      and "transfer (accounts b) i j a = None"
    using that by simp
  have tr_m: "userMenu_case now b (Transfer n m a) = Some ([], b)"
    if "findAccount b n = Some i" and "findAccount b m = None"
    using that by simp
  have unknown: "userMenu_case now b (Deposit n a) = Some ([InvalidAccount], b)"
    "userMenu_case now b (Withdraw n a) = Some ([InvalidAccount], b)"
    "userMenu_case now b (Transfer n m a) = Some ([InvalidAccounts], b)"
    if "findAccount b n = None"
    using that by simp_all
  note new = dep_t dep_f wd_t wd_f tr_t tr_f tr_n tr_m unknown
  note msg = log_follows_message [where now = now and b = b and n = n and a = a and m = m
      and out = out and b' = b']
  from new msg show ?thesis by blast
qed

theorem log_fidelity_witness:
  "findAccount two_accounts 1000 = Some 0 \<and> findAccount two_accounts 1001 = Some 1 \<and>
   findAccount two_accounts 7 = None \<and>
   fst (deposit (accounts two_accounts ! 0) 5) \<and>
   userMenu_case clock two_accounts (Deposit 1000 5) =
     Some ([DepositedSuccessfully],
           \<lparr>accounts = [acc1000\<lparr>balance := 105\<rparr>, acc1001],
            transactions =
              [\<lparr>transactionId = 1, type = ''Deposit'', amount = 5, fromAccount = 1000,
                toAccount = - 1, timestamp = ''Fri Oct 30 04:20:00 2026''\<rparr>],
            nextAccountNumber = 1002\<rparr>) \<and>
   \<not> fst (deposit (accounts two_accounts ! 0) 0) \<and>
   userMenu_case clock two_accounts (Deposit 1000 0) = Some ([], two_accounts) \<and>
   userMenu_case clock two_accounts (Deposit 7 10) = Some ([InvalidAccount], two_accounts) \<and>
   fst (withdraw (accounts two_accounts ! 1) 20) \<and>
   userMenu_case clock two_accounts (Withdraw 1001 20) =
     Some ([WithdrawalSuccessful],
           \<lparr>accounts = [acc1000, acc1001\<lparr>balance := 30\<rparr>],
            transactions =
              [\<lparr>transactionId = 1, type = ''Withdraw'', amount = 20, fromAccount = 1001,
                toAccount = - 1, timestamp = ''Fri Oct 30 04:20:00 2026''\<rparr>],
            nextAccountNumber = 1002\<rparr>) \<and>
   \<not> fst (withdraw (accounts two_accounts ! 0) 1000) \<and>
   userMenu_case clock two_accounts (Withdraw 1000 1000) = Some ([], two_accounts) \<and>
   transfer (accounts two_accounts) 0 1 30 =
     Some (True, [acc1000\<lparr>balance := 70\<rparr>, acc1001\<lparr>balance := 80\<rparr>]) \<and>
   userMenu_case clock two_accounts (Transfer 1000 1001 30) =
     Some ([TransferSuccessful],
           \<lparr>accounts = [acc1000\<lparr>balance := 70\<rparr>, acc1001\<lparr>balance := 80\<rparr>],
            transactions =
              [\<lparr>transactionId = 1, type = ''Transfer'', amount = 30, fromAccount = 1000,
                toAccount = 1001, timestamp = ''Fri Oct 30 04:20:00 2026''\<rparr>],
            nextAccountNumber = 1002\<rparr>) \<and>
   transfer (accounts two_accounts) 0 1 1000 = Some (False, accounts two_accounts) \<and>
   userMenu_case clock two_accounts (Transfer 1000 1001 1000) = Some ([], two_accounts)"
proof -
  have f0: "findAccount two_accounts 1000 = Some 0"
    and f1: "findAccount two_accounts 1001 = Some 1"
    and f7: "findAccount two_accounts 7 = None"
    by (simp_all add: findAccount_def)
  have d5: "fst (deposit (accounts two_accounts ! 0) 5)"
    and v5: "snd (deposit (accounts two_accounts ! 0) 5) = acc1000\<lparr>balance := 105\<rparr>"
    and d0: "\<not> fst (deposit (accounts two_accounts ! 0) 0)"
    by (simp_all add: deposit_def word_sle_eq)
  have w20: "fst (withdraw (accounts two_accounts ! 1) 20)"
    and v20: "snd (withdraw (accounts two_accounts ! 1) 20) = acc1001\<lparr>balance := 30\<rparr>"
    and w1000: "\<not> fst (withdraw (accounts two_accounts ! 0) 1000)"
    by (simp_all add: withdraw_def word_sle_eq word_sless_alt)
  have t30: "transfer (accounts two_accounts) 0 1 30 =
      Some (True, [acc1000\<lparr>balance := 70\<rparr>, acc1001\<lparr>balance := 80\<rparr>])"
    and t1000: "transfer (accounts two_accounts) 0 1 1000 = Some (False, accounts two_accounts)"
    by (simp_all add: transfer_def word_sle_eq word_sless_alt)
  from log_fidelity [where b = two_accounts and n = 1000 and i = 0 and a = 5 and now = clock] f0 d5
  have "userMenu_case clock two_accounts (Deposit 1000 5) =
     Some ([DepositedSuccessfully],
           \<lparr>accounts = (accounts two_accounts)[0 := snd (deposit (accounts two_accounts ! 0) 5)],
            transactions = transactions two_accounts @
              [\<lparr>transactionId = of_nat (length (transactions two_accounts) + 1), type = ''Deposit'',
                amount = 5, fromAccount = 1000, toAccount = - 1, timestamp = butlast clock\<rparr>],
            nextAccountNumber = nextAccountNumber two_accounts\<rparr>)"
    by blast
  then have r1: "userMenu_case clock two_accounts (Deposit 1000 5) =
     Some ([DepositedSuccessfully],
           \<lparr>accounts = [acc1000\<lparr>balance := 105\<rparr>, acc1001],
            transactions =
              [\<lparr>transactionId = 1, type = ''Deposit'', amount = 5, fromAccount = 1000,
                toAccount = - 1, timestamp = ''Fri Oct 30 04:20:00 2026''\<rparr>],
            nextAccountNumber = 1002\<rparr>)"
    unfolding v5 by simp
  from log_fidelity [where b = two_accounts and n = 1000 and i = 0 and a = 0 and now = clock] f0 d0
  have r2: "userMenu_case clock two_accounts (Deposit 1000 0) = Some ([], two_accounts)"
    by blast
  from log_fidelity [where b = two_accounts and n = 7 and a = 10 and now = clock] f7
  have r3: "userMenu_case clock two_accounts (Deposit 7 10) = Some ([InvalidAccount], two_accounts)"
    by blast
  from log_fidelity [where b = two_accounts and n = 1001 and i = 1 and a = 20 and now = clock] f1 w20
  have "userMenu_case clock two_accounts (Withdraw 1001 20) =
     Some ([WithdrawalSuccessful],
           \<lparr>accounts = (accounts two_accounts)[1 := snd (withdraw (accounts two_accounts ! 1) 20)],
            transactions = transactions two_accounts @
              [\<lparr>transactionId = of_nat (length (transactions two_accounts) + 1), type = ''Withdraw'',
                amount = 20, fromAccount = 1001, toAccount = - 1, timestamp = butlast clock\<rparr>],
            nextAccountNumber = nextAccountNumber two_accounts\<rparr>)"
    by blast
  then have r4: "userMenu_case clock two_accounts (Withdraw 1001 20) =
     Some ([WithdrawalSuccessful],
           \<lparr>accounts = [acc1000, acc1001\<lparr>balance := 30\<rparr>],
            transactions =
              [\<lparr>transactionId = 1, type = ''Withdraw'', amount = 20, fromAccount = 1001,
                toAccount = - 1, timestamp = ''Fri Oct 30 04:20:00 2026''\<rparr>],
            nextAccountNumber = 1002\<rparr>)"
    unfolding v20 by simp
  from log_fidelity [where b = two_accounts and n = 1000 and i = 0 and a = 1000 and now = clock]
    f0 w1000
  have r5: "userMenu_case clock two_accounts (Withdraw 1000 1000) = Some ([], two_accounts)"
    by blast
  from log_fidelity [where b = two_accounts and n = 1000 and i = 0 and m = 1001 and j = 1
      and a = 30 and now = clock
      and as' = "[acc1000\<lparr>balance := 70\<rparr>, acc1001\<lparr>balance := 80\<rparr>]"] f0 f1 t30
  have "userMenu_case clock two_accounts (Transfer 1000 1001 30) =
     Some ([TransferSuccessful],
           \<lparr>accounts = [acc1000\<lparr>balance := 70\<rparr>, acc1001\<lparr>balance := 80\<rparr>],
            transactions = transactions two_accounts @
              [\<lparr>transactionId = of_nat (length (transactions two_accounts) + 1), type = ''Transfer'',
                amount = 30, fromAccount = 1000, toAccount = 1001, timestamp = butlast clock\<rparr>],
            nextAccountNumber = nextAccountNumber two_accounts\<rparr>)"
    by blast
  then have r6: "userMenu_case clock two_accounts (Transfer 1000 1001 30) =
     Some ([TransferSuccessful],
           \<lparr>accounts = [acc1000\<lparr>balance := 70\<rparr>, acc1001\<lparr>balance := 80\<rparr>],
            transactions =
              [\<lparr>transactionId = 1, type = ''Transfer'', amount = 30, fromAccount = 1000,
                toAccount = 1001, timestamp = ''Fri Oct 30 04:20:00 2026''\<rparr>],
            nextAccountNumber = 1002\<rparr>)"
    by simp
  from log_fidelity [where b = two_accounts and n = 1000 and i = 0 and m = 1001 and j = 1
      and a = 1000 and now = clock and as' = "accounts two_accounts"] f0 f1 t1000
  have r7: "userMenu_case clock two_accounts (Transfer 1000 1001 1000) = Some ([], two_accounts)"
    by blast
  from f0 f1 f7 d5 d0 w20 w1000 t30 t1000 r1 r2 r3 r4 r5 r6 r7 show ?thesis
    by blast
qed

section \<open>Transfers\<close>

text \<open>
  C2, as the code has it. For two registered accounts with different numbers \<open>x\<close> and \<open>y\<close>
  and an amount \<open>a\<close> with \<open>0 < a \<le> balance x\<close> such that \<open>balance y + a\<close> is at most
  \<open>INT_MAX\<close>, the transfer pass succeeds, the balance of \<open>x\<close> goes down by exactly \<open>a\<close>,
  that of \<open>y\<close> up by exactly \<open>a\<close>, every other account and all account numbers stay as
  they are, and the sum of all balances is unchanged.
\<close>

theorem transfer_conserves:
  assumes fx: "findAccount b x = Some i" and fy: "findAccount b y = Some j"
    and xy: "x \<noteq> y"
    and pos: "0 <s a" and le: "a \<le>s balance (accounts b ! i)"
    and fits: "sint (balance (accounts b ! j)) + sint a \<le> INT_MAX"
  shows "\<exists>b'. userMenu_case now b (Transfer x y a) = Some ([TransferSuccessful], b') \<and>
     map accountNumber (accounts b') = map accountNumber (accounts b) \<and>
     sint (balance (accounts b' ! i)) = sint (balance (accounts b ! i)) - sint a \<and>
     sint (balance (accounts b' ! j)) = sint (balance (accounts b ! j)) + sint a \<and>
     (\<forall>k < length (accounts b). k \<noteq> i \<and> k \<noteq> j \<longrightarrow> accounts b' ! k = accounts b ! k) \<and>
     total (accounts b') = total (accounts b)"
proof -
  let ?as = "accounts b"
  let ?as' = "?as[i := (?as ! i)\<lparr>balance := balance (?as ! i) - a\<rparr>,
                  j := (?as ! j)\<lparr>balance := balance (?as ! j) + a\<rparr>]"
  let ?b' = "recordTransaction (b\<lparr>accounts := ?as'\<rparr>) now ''Transfer'' a x y"
  from fx have i: "i < length ?as" and ni: "accountNumber (?as ! i) = x"
    by (rule findAccount_Some)+
  from fy have j: "j < length ?as" and nj: "accountNumber (?as ! j) = y"
    by (rule findAccount_Some)+
  from ni nj xy have ij: "i \<noteq> j" by auto
  have a0: "0 < sint a" and ale: "sint a \<le> sint (balance (?as ! i))"
    using pos le by (simp_all add: word_sle_eq word_sless_alt)
  have deb: "sint (balance (?as ! i) - a) = sint (balance (?as ! i)) - sint a"
    using a0 ale by (rule sint_sub_pos)
  have cre: "sint (balance (?as ! j) + a) = sint (balance (?as ! j)) + sint a"
    using a0 fits by (intro sint_add_pos) (simp_all add: INT_MAX_def)
  have run: "userMenu_case now b (Transfer x y a) = Some ([TransferSuccessful], ?b')"
    using fx fy transfer_ok [OF i j ij pos le] by simp
  have acc: "accounts ?b' = ?as'"
    by (simp add: recordTransaction_def)
  have nums: "map accountNumber ?as' = map accountNumber ?as"
    using ij by (simp add: numbers_update)
  have bi: "sint (balance (?as' ! i)) = sint (balance (?as ! i)) - sint a"
    using i j ij deb by simp
  have bj: "sint (balance (?as' ! j)) = sint (balance (?as ! j)) + sint a"
    using i j ij cre by simp
  have others: "\<forall>k < length ?as. k \<noteq> i \<and> k \<noteq> j \<longrightarrow> ?as' ! k = ?as ! k"
    by simp
  have tot: "total ?as' = total ?as"
    using i j ij deb cre by (simp add: total_update)
  show ?thesis
    using run acc nums bi bj others tot by (intro exI [of _ ?b']) simp
qed

theorem transfer_conserves_witness:
  "findAccount two_accounts 1000 = Some 0 \<and> findAccount two_accounts 1001 = Some 1 \<and>
   (1000 :: cint) \<noteq> 1001 \<and> 0 <s (30 :: cint) \<and> 30 \<le>s balance (accounts two_accounts ! 0) \<and>
   sint (balance (accounts two_accounts ! 1)) + sint (30 :: cint) \<le> INT_MAX \<and>
   sint (balance (accounts (snd (the (userMenu_case clock two_accounts (Transfer 1000 1001 30)))) ! 0)) = 70 \<and>
   sint (balance (accounts (snd (the (userMenu_case clock two_accounts (Transfer 1000 1001 30)))) ! 1)) = 80 \<and>
   total (accounts (snd (the (userMenu_case clock two_accounts (Transfer 1000 1001 30))))) = 150"
proof -
  have f0: "findAccount two_accounts 1000 = Some 0"
    and f1: "findAccount two_accounts 1001 = Some 1"
    by (simp_all add: findAccount_def)
  have ne: "(1000 :: cint) \<noteq> 1001" by simp
  have pos: "0 <s (30 :: cint)" and le: "30 \<le>s balance (accounts two_accounts ! 0)"
    by (simp_all add: word_sle_eq word_sless_alt)
  have fits: "sint (balance (accounts two_accounts ! 1)) + sint (30 :: cint) \<le> INT_MAX"
    by (simp add: INT_MAX_def)
  from transfer_conserves [OF f0 f1 ne pos le fits, of clock] obtain b' where
    run: "userMenu_case clock two_accounts (Transfer 1000 1001 30) = Some ([TransferSuccessful], b')"
    and bi: "sint (balance (accounts b' ! 0)) = sint (balance (accounts two_accounts ! 0)) - sint (30 :: cint)"
    and bj: "sint (balance (accounts b' ! 1)) = sint (balance (accounts two_accounts ! 1)) + sint (30 :: cint)"
    and tot: "total (accounts b') = total (accounts two_accounts)"
    by blast
  from run have "snd (the (userMenu_case clock two_accounts (Transfer 1000 1001 30))) = b'"
    by simp
  with bi bj tot f0 f1 ne pos le fits show ?thesis
    by (simp add: total_def)
qed

text \<open>
  C2 as stated fails where the credit leaves the range of \<open>int\<close>. Two accounts are opened
  with balances 1 and \<open>INT_MAX\<close>; the transfer of 1 from the first to the second
  succeeds, the second balance is then \<open>INT_MIN\<close> and the sum of the balances has changed.
\<close>

theorem transfer_overflow_counterexample:
  "userMenu Bank_init
     [(clock, Create ''A'' ''Savings'' 1), (clock, Create ''B'' ''Savings'' 2147483647)] =
     Some ([AccountCreated 1000, AccountCreated 1001],
           \<lparr>accounts = [acc1000\<lparr>balance := 1\<rparr>,
                        acc1001\<lparr>balance := 2147483647, accountType := ''Savings''\<rparr>],
            transactions = [], nextAccountNumber = 1002\<rparr>) \<and>
   0 <s (1 :: cint) \<and> (1 :: cint) \<le>s balance (acc1000\<lparr>balance := 1\<rparr>) \<and>
   userMenu_case clock
     \<lparr>accounts = [acc1000\<lparr>balance := 1\<rparr>,
                  acc1001\<lparr>balance := 2147483647, accountType := ''Savings''\<rparr>],
      transactions = [], nextAccountNumber = 1002\<rparr>
     (Transfer 1000 1001 1) =
     Some ([TransferSuccessful],
           \<lparr>accounts = [acc1000\<lparr>balance := 0\<rparr>,
                        acc1001\<lparr>balance := - 2147483648, accountType := ''Savings''\<rparr>],
            transactions =
              [\<lparr>transactionId = 1, type = ''Transfer'', amount = 1, fromAccount = 1000,
                toAccount = 1001, timestamp = ''Fri Oct 30 04:20:00 2026''\<rparr>],
            nextAccountNumber = 1002\<rparr>) \<and>
   sint (balance (acc1001\<lparr>balance := - 2147483648, accountType := ''Savings''\<rparr>))
     \<noteq> sint (balance (acc1001\<lparr>balance := 2147483647, accountType := ''Savings''\<rparr>))
       + sint (1 :: cint) \<and>
   total [acc1000\<lparr>balance := 0\<rparr>,
          acc1001\<lparr>balance := - 2147483648, accountType := ''Savings''\<rparr>]
     \<noteq> total [acc1000\<lparr>balance := 1\<rparr>,
              acc1001\<lparr>balance := 2147483647, accountType := ''Savings''\<rparr>]"
  by (simp add: Bank_init_def createAccount_def findAccount_def transfer_def
      recordTransaction_def mkTransaction_def total_def word_sle_eq word_sless_alt)

text \<open>
  C10, on the code. A transfer from a registered account to itself with an amount
  \<open>0 < a \<le> balance\<close> does not return success: after the debit the call locks the mutex
  it already holds and never returns. At the menu, on the function \<open>transfer\<close>, and for
  the thread run step by step, which is stuck at line 93 with the balance at 70.
\<close>

theorem self_transfer_hangs:
  "userMenu Bank_init [(clock, Create ''A'' ''Savings'' 100), (clock, Transfer 1000 1000 30)] = None \<and>
   transfer [acc1000] 0 0 30 = None \<and>
   run_thread 5 0
     \<lparr>accs = [acc1000], mutex = [None],
      threads = [\<lparr>at = Lock_this, this_acc = 0, to_acc = 0, th_amount = 30\<rparr>]\<rparr> =
     Stuck \<lparr>accs = [acc1000\<lparr>balance := 70\<rparr>], mutex = [Some 0],
            threads = [\<lparr>at = Lock_target, this_acc = 0, to_acc = 0, th_amount = 30\<rparr>]\<rparr>"
  by (simp add: eval_nat_numeral step_def goto_def Bank_init_def createAccount_def
      findAccount_def transfer_def word_sle_eq word_sless_alt)

text \<open>
  C1, on the code. \<open>transfer\<close> takes the mutex of its own account first and the mutex of
  the target second, whatever the numbers of the two accounts: the thread that transfers
  from 1000 to 1001 first holds the mutex of 1000, the thread that transfers from 1001 to
  1000 first holds the mutex of 1001. When each of the two has taken its first mutex and
  debited, both wait for the mutex the other holds: a deadlock.
\<close>

theorem opposite_transfers_deadlock:
  "map_option mutex (run_schedule opposite_transfers [0]) = Some [Some 0, None] \<and>
   map_option mutex (run_schedule opposite_transfers [1]) = Some [None, Some 1] \<and>
   map_option mutex (run_schedule opposite_transfers [0, 0, 0, 1, 1, 1]) = Some [Some 0, Some 1] \<and>
   map_option deadlocked (run_schedule opposite_transfers [0, 0, 0, 1, 1, 1]) = Some True"
  by (simp add: step_def goto_def deadlocked_def waits_def moves_def word_sle_eq word_sless_alt
      upt_rec)

section \<open>Invariants of the registry\<close>

text \<open>
  C3, as the code has it. Along every run of the menu from the new bank in which every
  pass is admissible (no account is opened with a negative balance, and no deposit or
  transfer adds to a balance beyond \<open>INT_MAX\<close>), no balance is negative after any
  number \<open>k\<close> of passes.
\<close>

theorem balances_stay_nonneg:
  assumes "admissible_run Bank_init cs" and "userMenu Bank_init (take k cs) = Some (out, b)"
  shows "nonneg b"
proof -
  have "nonneg Bank_init" by (simp add: nonneg_def Bank_init_def)
  moreover from assms(1) have "admissible_run Bank_init (take k cs)"
    by (rule admissible_run_take)
  ultimately show ?thesis using assms(2) by (rule nonneg_run)
qed

theorem balances_stay_nonneg_witness:
  "admissible_run Bank_init
     [(clock, Create ''A'' ''Savings'' 100), (clock, Create ''B'' ''Current'' 50),
      (clock, Transfer 1000 1001 30), (clock, Withdraw 1001 80)] \<and>
   userMenu Bank_init
     (take 3 [(clock, Create ''A'' ''Savings'' 100), (clock, Create ''B'' ''Current'' 50),
              (clock, Transfer 1000 1001 30), (clock, Withdraw 1001 80)]) =
     Some ([AccountCreated 1000, AccountCreated 1001, TransferSuccessful],
           \<lparr>accounts = [acc1000\<lparr>balance := 70\<rparr>, acc1001\<lparr>balance := 80\<rparr>],
            transactions =
              [\<lparr>transactionId = 1, type = ''Transfer'', amount = 30, fromAccount = 1000,
                toAccount = 1001, timestamp = ''Fri Oct 30 04:20:00 2026''\<rparr>],
            nextAccountNumber = 1002\<rparr>) \<and>
   nonneg \<lparr>accounts = [acc1000\<lparr>balance := 70\<rparr>, acc1001\<lparr>balance := 80\<rparr>],
           transactions =
             [\<lparr>transactionId = 1, type = ''Transfer'', amount = 30, fromAccount = 1000,
               toAccount = 1001, timestamp = ''Fri Oct 30 04:20:00 2026''\<rparr>],
           nextAccountNumber = 1002\<rparr>"
proof -
  have adm: "admissible_run Bank_init
     [(clock, Create ''A'' ''Savings'' 100), (clock, Create ''B'' ''Current'' 50),
      (clock, Transfer 1000 1001 30), (clock, Withdraw 1001 80)]"
    by (simp add: Bank_init_def createAccount_def findAccount_def transfer_def withdraw_def
        recordTransaction_def mkTransaction_def INT_MAX_def word_sle_eq word_sless_alt)
  have run: "userMenu Bank_init
     (take 3 [(clock, Create ''A'' ''Savings'' 100), (clock, Create ''B'' ''Current'' 50),
              (clock, Transfer 1000 1001 30), (clock, Withdraw 1001 80)]) =
     Some ([AccountCreated 1000, AccountCreated 1001, TransferSuccessful],
           \<lparr>accounts = [acc1000\<lparr>balance := 70\<rparr>, acc1001\<lparr>balance := 80\<rparr>],
            transactions =
              [\<lparr>transactionId = 1, type = ''Transfer'', amount = 30, fromAccount = 1000,
                toAccount = 1001, timestamp = ''Fri Oct 30 04:20:00 2026''\<rparr>],
            nextAccountNumber = 1002\<rparr>)"
    by (simp add: Bank_init_def createAccount_def findAccount_def transfer_def
        recordTransaction_def mkTransaction_def word_sle_eq word_sless_alt)
  from balances_stay_nonneg [OF adm run] adm run show ?thesis by blast
qed

text \<open>
  C3 as stated fails in two ways. An account opened with the initial balance \<open>-5\<close> is
  registered with that balance. And an account opened with \<open>INT_MAX\<close> has, after a
  successful deposit of 1, the balance \<open>INT_MIN\<close>.
\<close>

theorem negative_balance_counterexample:
  "userMenu Bank_init [(clock, Create ''A'' ''Savings'' (- 5))] =
     Some ([AccountCreated 1000],
           \<lparr>accounts = [acc1000\<lparr>balance := - 5\<rparr>], transactions = [],
            nextAccountNumber = 1001\<rparr>) \<and>
   \<not> nonneg \<lparr>accounts = [acc1000\<lparr>balance := - 5\<rparr>], transactions = [],
             nextAccountNumber = 1001\<rparr> \<and>
   userMenu Bank_init [(clock, Create ''A'' ''Savings'' 2147483647), (clock, Deposit 1000 1)] =
     Some ([AccountCreated 1000, DepositedSuccessfully],
           \<lparr>accounts = [acc1000\<lparr>balance := - 2147483648\<rparr>],
            transactions =
              [\<lparr>transactionId = 1, type = ''Deposit'', amount = 1, fromAccount = 1000,
                toAccount = - 1, timestamp = ''Fri Oct 30 04:20:00 2026''\<rparr>],
            nextAccountNumber = 1001\<rparr>) \<and>
   \<not> nonneg \<lparr>accounts = [acc1000\<lparr>balance := - 2147483648\<rparr>],
             transactions =
               [\<lparr>transactionId = 1, type = ''Deposit'', amount = 1, fromAccount = 1000,
                 toAccount = - 1, timestamp = ''Fri Oct 30 04:20:00 2026''\<rparr>],
             nextAccountNumber = 1001\<rparr>"
  by (simp add: Bank_init_def createAccount_def findAccount_def deposit_def
      recordTransaction_def mkTransaction_def nonneg_def word_sle_eq word_sless_alt)

text \<open>
  C6, as the code has it. The counter starts at 1000; \<open>createAccount\<close> gives the new
  account the counter's value, returns that value and adds one to the counter (a true
  increment while the counter is below \<open>INT_MAX\<close>). A run that only opens accounts
  returns. In every bank reached from the new bank that holds at most 2147482647 accounts
  (the counter has not yet passed \<open>INT_MAX\<close>), the numbers of the registry are the
  numbers announced, they are 1000, 1001, ... in creation order, no two are equal, each is
  less than the next, and the counter is 1000 plus the number of accounts.
\<close>

theorem account_numbers_unique_increasing:
  "nextAccountNumber Bank_init = 1000 \<and>
   fst (createAccount bk name ty ini) = nextAccountNumber bk \<and>
   accountNumber (last (accounts (snd (createAccount bk name ty ini)))) = nextAccountNumber bk \<and>
   nextAccountNumber (snd (createAccount bk name ty ini)) = nextAccountNumber bk + 1 \<and>
   (sint (nextAccountNumber bk) < INT_MAX \<longrightarrow>
      sint (nextAccountNumber (snd (createAccount bk name ty ini)))
        = sint (nextAccountNumber bk) + 1) \<and>
   (creates_only cs \<longrightarrow> userMenu Bank_init cs \<noteq> None) \<and>
   (userMenu Bank_init cs = Some (out, b) \<and> length (accounts b) \<le> 2147482647 \<longrightarrow>
      map accountNumber (accounts b) = created out \<and>
      map sint (created out) = map (\<lambda>k. 1000 + int k) [0..<length (accounts b)] \<and>
      distinct (created out) \<and>
      sorted_wrt (<s) (created out) \<and>
      sint (nextAccountNumber b) = 1000 + int (length (accounts b)))"
proof -
  have one: "sint (nextAccountNumber bk + 1) = sint (nextAccountNumber bk) + 1"
    if "sint (nextAccountNumber bk) < 2147483647"
    using that sint_add_pos [of 1 "nextAccountNumber bk"] by simp
  have returns: "userMenu Bank_init cs \<noteq> None" if "creates_only cs"
    using creates_return [OF that, of Bank_init] by auto
  have seq: "map accountNumber (accounts b) = created out \<and>
      map sint (created out) = map (\<lambda>k. 1000 + int k) [0..<length (accounts b)] \<and>
      distinct (created out) \<and>
      sorted_wrt (<s) (created out) \<and>
      sint (nextAccountNumber b) = 1000 + int (length (accounts b))"
    if run: "userMenu Bank_init cs = Some (out, b)"
      and bound: "length (accounts b) \<le> 2147482647"
  proof -
    from numbers_run [OF run] have
      nums: "map accountNumber (accounts b) = created out" and
      next': "nextAccountNumber b = 1000 + of_nat (length (created out))" and
      nth: "\<forall>k < length (created out). created out ! k = 1000 + of_nat k"
      by (simp_all add: Bank_init_def)
    from nums have len: "length (created out) = length (accounts b)"
      by (metis length_map)
    have val: "sint (created out ! k) = 1000 + int k" if "k < length (created out)" for k
      using that nth bound len by (simp add: sint_number)
    have "map sint (created out) = map (\<lambda>k. 1000 + int k) [0..<length (accounts b)]"
      using val len by (intro nth_equalityI) simp_all
    moreover have "sorted_wrt (<s) (created out)"
      using val by (simp add: sorted_wrt_iff_nth_less word_sless_alt)
    moreover have "distinct (created out)"
    proof -
      have "created out ! i \<noteq> created out ! j"
        if "i < length (created out)" "j < length (created out)" "i \<noteq> j" for i j
      proof
        assume "created out ! i = created out ! j"
        then have "sint (created out ! i) = sint (created out ! j)" by simp
        with val that show False by simp
      qed
      then show ?thesis by (simp add: distinct_conv_nth)
    qed
    moreover have "sint (nextAccountNumber b) = 1000 + int (length (accounts b))"
      using next' len bound by (simp add: sint_number)
    ultimately show ?thesis using nums by simp
  qed
  show ?thesis
    using one returns seq by (simp add: Bank_init_def createAccount_def INT_MAX_def)
qed

theorem account_numbers_unique_increasing_witness:
  "creates_only [(clock, Create ''A'' ''Savings'' 100), (clock, Create ''B'' ''Current'' 50)] \<and>
   userMenu Bank_init [(clock, Create ''A'' ''Savings'' 100), (clock, Create ''B'' ''Current'' 50)] =
     Some ([AccountCreated 1000, AccountCreated 1001], two_accounts) \<and>
   length (accounts two_accounts) \<le> 2147482647 \<and>
   sint (nextAccountNumber two_accounts) < INT_MAX \<and>
   map accountNumber (accounts two_accounts) = [1000, 1001] \<and>
   distinct [1000, 1001 :: cint] \<and>
   sorted_wrt (<s) [1000, 1001 :: cint] \<and>
   sint (nextAccountNumber two_accounts) = 1002 \<and>
   sint (nextAccountNumber (snd (createAccount two_accounts ''C'' ''Savings'' 0))) = 1003"
proof -
  have only: "creates_only [(clock, Create ''A'' ''Savings'' 100), (clock, Create ''B'' ''Current'' 50)]"
    by simp
  have run: "userMenu Bank_init [(clock, Create ''A'' ''Savings'' 100), (clock, Create ''B'' ''Current'' 50)] =
     Some ([AccountCreated 1000, AccountCreated 1001], two_accounts)"
    by (simp add: Bank_init_def createAccount_def)
  have len: "length (accounts two_accounts) \<le> 2147482647" by simp
  have below: "sint (nextAccountNumber two_accounts) < INT_MAX" by (simp add: INT_MAX_def)
  from account_numbers_unique_increasing [where bk = two_accounts and name = "''C''"
      and ty = "''Savings''" and ini = 0
      and cs = "[(clock, Create ''A'' ''Savings'' 100), (clock, Create ''B'' ''Current'' 50)]"
      and out = "[AccountCreated 1000, AccountCreated 1001]" and b = two_accounts]
    only run len below
  show ?thesis by simp
qed

text \<open>
  C6 as stated fails once the counter has passed \<open>INT_MAX\<close>: in a run that opens
  2147482649 accounts the last number handed out, \<open>INT_MIN\<close>, is less than the number
  before it, \<open>INT_MAX\<close>.
\<close>

theorem counter_wraps_counterexample:
  "userMenu Bank_init (replicate 2147482649 (clock, Create ''A'' ''Savings'' 0)) \<noteq> None \<and>
   created (fst (the (userMenu Bank_init (replicate 2147482649 (clock, Create ''A'' ''Savings'' 0)))))
       ! 2147482648
     <s created (fst (the (userMenu Bank_init (replicate 2147482649 (clock, Create ''A'' ''Savings'' 0)))))
       ! 2147482647"
proof -
  define cs :: "(string \<times> command) list" where
    "cs = replicate 2147482649 (clock, Create ''A'' ''Savings'' 0)"
  have "creates_only cs"
    unfolding cs_def by (rule creates_only_replicate)
  from creates_return [OF this, of Bank_init] obtain out b where
    run: "userMenu Bank_init cs = Some (out, b)" and len: "length (created out) = length cs"
    by blast
  have n: "length (created out) = 2147482649"
    unfolding len cs_def by (simp only: length_replicate)
  from numbers_run [OF run] have
    nth: "\<forall>k < length (created out). created out ! k = 1000 + of_nat k"
    by (simp add: Bank_init_def)
  have "created out ! 2147482648 = (1000 + of_nat 2147482648 :: cint)"
    using nth n by simp
  moreover have "created out ! 2147482647 = (1000 + of_nat 2147482647 :: cint)"
    using nth n by simp
  ultimately have "created out ! 2147482648 <s created out ! 2147482647"
    by (simp add: word_sless_alt)
  with run show ?thesis unfolding cs_def [symmetric] by simp
qed

end
